theory Spec2Isabelle
  imports Complex_Main
begin

section \<open>Python strings\<close>

text \<open>
  The feed is decoded text. A Python \<open>str\<close> is modelled as a \<open>string\<close>; the model is
  exact for ASCII text, which is what the SBS protocol carries (\<open>upper\<close> and the
  whitespace set below are the ASCII parts of the Python functions).
\<close>

definition is_space :: "char \<Rightarrow> bool" where
  \<comment> \<open>the ASCII characters for which \<open>str.isspace\<close> holds: TAB, LF, VT, FF, CR, FS, GS, RS, US, SPACE\<close>
  "is_space c = (of_char c \<in> {9, 10, 11, 12, 13, 28, 29, 30, 31, 32 :: int})"

definition strip_by :: "(char \<Rightarrow> bool) \<Rightarrow> string \<Rightarrow> string" where
  "strip_by p s = rev (dropWhile p (rev (dropWhile p s)))"

definition strip :: "string \<Rightarrow> string" where
  \<comment> \<open>\<open>str.strip()\<close>\<close>
  "strip s = strip_by is_space s"

definition upper_char :: "char \<Rightarrow> char" where
  "upper_char c = (let n = of_char c :: int in if 97 \<le> n \<and> n \<le> 122 then char_of (n - 32) else c)"

definition upper :: "string \<Rightarrow> string" where
  \<comment> \<open>\<open>str.upper()\<close>\<close>
  "upper s = map upper_char s"

fun split :: "char \<Rightarrow> string \<Rightarrow> string list" where
  \<comment> \<open>\<open>s.split(sep)\<close> for a one-character separator: always at least one part\<close>
  "split sep [] = [[]]"
| "split sep (c # cs) =
     (if c = sep then [] # split sep cs
      else (let ps = split sep cs in (c # hd ps) # tl ps))"

section \<open>Python floats\<close>

text \<open>
  A float is an IEEE 754 binary64 value: a sign and a magnitude (a rational that binary64
  represents), an infinity, or a NaN. \<open>float(s)\<close> skips white space, reads a sign and
  then \<open>inf\<close>, \<open>infinity\<close> or \<open>nan\<close> in any case, or a decimal number with an optional
  exponent, single underscores allowed between digits; the number is rounded to the
  nearest binary64, ties to even, and is an infinity from \<open>2^1024 - 2^970\<close> on. Any other
  text raises \<open>ValueError\<close>. \<open>int\<close> of a float truncates, and raises \<open>OverflowError\<close> on
  an infinity and \<open>ValueError\<close> on a NaN.
\<close>

datatype pyfloat = Finite bool rat | Infinity bool | NaN

datatype pyexn = ValueError | OverflowError

function bitlen :: "int \<Rightarrow> int" where
  \<comment> \<open>number of binary digits of a positive integer\<close>
  "bitlen n = (if n \<le> 0 then 0 else 1 + bitlen (n div 2))"
  by pat_completeness auto
termination
  by (relation "measure nat") auto

declare bitlen.simps [simp del]

definition pow_int :: "rat \<Rightarrow> int \<Rightarrow> rat" where
  "pow_int b e = (if 0 \<le> e then b ^ nat e else 1 / b ^ nat (- e))"

definition ilog2 :: "rat \<Rightarrow> int" where
  \<comment> \<open>\<open>\<lfloor>log\<^sub>2 q\<rfloor>\<close> for \<open>q > 0\<close>\<close>
  "ilog2 q =
     (let (n, d) = quotient_of q;
          e = bitlen n - bitlen d
      in if pow_int 2 e \<le> q then e else e - 1)"

definition round_half_even :: "rat \<Rightarrow> int" where
  "round_half_even q =
     (let f = \<lfloor>q\<rfloor>; r = q - of_int f
      in if r < 1 / 2 then f
         else if 1 / 2 < r then f + 1
         else if even f then f else f + 1)"

definition to_binary64 :: "rat \<Rightarrow> rat option" where
  \<comment> \<open>round a magnitude \<open>q \<ge> 0\<close> to the nearest binary64 (ties to even); \<open>None\<close> is overflow\<close>
  "to_binary64 q =
     (if q = 0 then Some 0
      else
        let ulp = pow_int 2 (max (ilog2 q) (- 1022) - 52);
            r = of_int (round_half_even (q / ulp)) * ulp
        in if pow_int 2 1024 \<le> r then None else Some r)"

definition is_digit :: "char \<Rightarrow> bool" where
  "is_digit c = (let n = of_char c :: int in 48 \<le> n \<and> n \<le> 57)"

definition digit_val :: "char \<Rightarrow> int" where
  "digit_val c = of_char c - 48"

definition digits_val :: "string \<Rightarrow> int" where
  "digits_val ds = foldl (\<lambda>a c. 10 * a + digit_val c) 0 ds"

fun digit_tail :: "string \<Rightarrow> string \<times> string" where
  \<comment> \<open>after one digit: the digits of \<open>(["_"] digit)*\<close> and the rest of the text\<close>
  "digit_tail (c # d # cs) =
     (if is_digit c then (let (ds, r) = digit_tail (d # cs) in (c # ds, r))
      else if c = CHR ''_'' \<and> is_digit d then (let (ds, r) = digit_tail cs in (d # ds, r))
      else ([], c # d # cs))"
| "digit_tail [c] = (if is_digit c then ([c], []) else ([], [c]))"
| "digit_tail [] = ([], [])"

definition digitpart :: "string \<Rightarrow> (string \<times> string) option" where
  \<comment> \<open>\<open>digit (["_"] digit)*\<close>: its digits and the rest, or \<open>None\<close> when the text starts with no digit\<close>
  "digitpart s =
     (case s of
        [] \<Rightarrow> None
      | c # cs \<Rightarrow> if is_digit c then (let (ds, r) = digit_tail cs in Some (c # ds, r)) else None)"

definition is_c_space :: "char \<Rightarrow> bool" where
  \<comment> \<open>the white space that \<open>float\<close> skips at both ends of ASCII text: TAB, LF, VT, FF, CR,
      SPACE\<close>
  "is_c_space c = (of_char c \<in> {9, 10, 11, 12, 13, 32 :: int})"

definition take_sign :: "string \<Rightarrow> bool \<times> string" where
  "take_sign s =
     (case s of
        c # cs \<Rightarrow> if c = CHR ''-'' then (True, cs) else if c = CHR ''+'' then (False, cs) else (False, s)
      | [] \<Rightarrow> (False, s))"

definition lower_char :: "char \<Rightarrow> char" where
  "lower_char c = (let n = of_char c :: int in if 65 \<le> n \<and> n \<le> 90 then char_of (n + 32) else c)"

definition parse_exponent :: "string \<Rightarrow> int option" where
  \<comment> \<open>\<open>[("e" | "E") [sign] digitpart]\<close> up to the end of the text\<close>
  "parse_exponent s =
     (case s of
        [] \<Rightarrow> Some 0
      | c # cs \<Rightarrow>
          if c = CHR ''e'' \<or> c = CHR ''E'' then
            (let (neg, r) = take_sign cs in
             case digitpart r of
               Some (ds, []) \<Rightarrow> Some (if neg then - digits_val ds else digits_val ds)
             | _ \<Rightarrow> None)
          else None)"

definition parse_number :: "string \<Rightarrow> rat option" where
  \<comment> \<open>\<open>([digitpart] "." digitpart | digitpart ["."]) [exponent]\<close>: the decimal value written\<close>
  "parse_number s =
     (let (ip, r1) = (case digitpart s of Some (ds, r) \<Rightarrow> (ds, r) | None \<Rightarrow> ([], s));
          (dot, r2) = (case r1 of c # cs \<Rightarrow> if c = CHR ''.'' then (True, cs) else (False, r1)
                       | [] \<Rightarrow> (False, r1));
          (fp, r3) = (if dot then (case digitpart r2 of Some (ds, r) \<Rightarrow> (ds, r) | None \<Rightarrow> ([], r2))
                      else ([], r2))
      in if ip = [] \<and> fp = [] then None
         else (case parse_exponent r3 of
                 None \<Rightarrow> None
               | Some e \<Rightarrow> Some (of_int (digits_val (ip @ fp)) * pow_int 10 (e - int (length fp)))))"

definition float_py :: "string \<Rightarrow> pyexn + pyfloat" where
  \<comment> \<open>\<open>float(s)\<close> on a \<open>str\<close>\<close>
  "float_py s =
     (let (neg, r) = take_sign (strip_by is_c_space s); l = map lower_char r
      in if l = ''inf'' \<or> l = ''infinity'' then Inr (Infinity neg)
         else if l = ''nan'' then Inr NaN
         else (case parse_number r of
                 None \<Rightarrow> Inl ValueError
               | Some q \<Rightarrow> (case to_binary64 q of
                              None \<Rightarrow> Inr (Infinity neg)
                            | Some m \<Rightarrow> Inr (Finite neg m))))"

fun int_py :: "pyfloat \<Rightarrow> pyexn + int" where
  \<comment> \<open>\<open>int(x)\<close> on a float: truncation towards zero\<close>
  "int_py (Finite neg m) = Inr (if neg then - \<lfloor>m\<rfloor> else \<lfloor>m\<rfloor>)"
| "int_py (Infinity neg) = Inl OverflowError"
| "int_py NaN = Inl ValueError"

definition int_float :: "string \<Rightarrow> pyexn + int" where
  \<comment> \<open>\<open>int(float(s))\<close>\<close>
  "int_float s = (case float_py s of Inl e \<Rightarrow> Inl e | Inr x \<Rightarrow> int_py x)"

section \<open>Data model\<close>

text \<open>
  An aircraft is a dict with the key \<open>icao\<close> and the optional keys \<open>callsign\<close>, \<open>alt\<close>,
  \<open>lat\<close>, \<open>lon\<close>, \<open>speed\<close>, \<open>heading\<close> and \<open>squawk\<close>; a key that the dict does not
  hold is \<open>None\<close>.
\<close>

record aircraft =
  icao :: string
  callsign :: "string option"
  alt :: "int option"
  lat :: "pyfloat option"
  lon :: "pyfloat option"
  speed :: "int option"
  heading :: "int option"
  squawk :: "string option"

definition new_aircraft :: "string \<Rightarrow> aircraft" where
  \<comment> \<open>\<open>{'icao': icao}\<close>\<close>
  "new_aircraft i =
     \<lparr>icao = i, callsign = None, alt = None, lat = None, lon = None,
      speed = None, heading = None, squawk = None\<rparr>"

datatype event = Aircraft aircraft | Keepalive

text \<open>
  The module-level state: the flag \<open>adsb_using_service\<close> (line 22) and the variables of
  \<open>app_module\<close> that this file uses. Modelled from the spec: the declarations of
  \<open>app_module\<close> are not in this file; \<open>adsb_process\<close> is the handle of the decoder process
  (\<open>None\<close>, or whether \<open>poll()\<close> finds it running), \<open>adsb_aircraft\<close> is the registry, a
  mapping from identifier to record, and \<open>adsb_queue\<close> is the outbound channel, a queue
  taken as unbounded, so that \<open>put\<close> appends and returns. \<open>readers\<close> counts the reader
  threads started. The handlers \<open>start_adsb\<close> and \<open>stop_adsb\<close> and the handling of one
  line are steps on this state; how the threads interleave is given from outside (the
  readings of the flag in \<open>parse_sbs_stream\<close>, the order of operations in \<open>run\<close>).
\<close>

record globals =
  adsb_using_service :: bool
  adsb_process :: "bool option"
  adsb_aircraft :: "string \<rightharpoonup> aircraft"
  adsb_queue :: "event list"
  readers :: nat

text \<open>
  The variables of one connection in \<open>parse_sbs_stream\<close>. \<open>pending_updates\<close> is a Python
  set: a list without duplicates here, and the order in which Python iterates over it is
  not fixed. Times are the readings of \<open>time.time()\<close>, taken as exact numbers (the
  difference of two readings of the epoch clock is computed without rounding), and
  \<open>ticks\<close> counts the readings taken on this connection.
\<close>

record reader =
  buffer :: string
  last_update :: rat
  pending_updates :: "string list"
  ticks :: nat

type_synonym 'a raising = "pyexn \<times> 'a + 'a"
  \<comment> \<open>\<open>Inl (e, x)\<close>: the exception \<open>e\<close> propagates, with the state \<open>x\<close> reached when it was raised\<close>

section \<open>One line of the feed\<close>

definition except_ValueError :: "pyexn \<Rightarrow> 'a \<Rightarrow> 'a raising" where
  \<comment> \<open>\<open>except (ValueError, TypeError): pass\<close>\<close>
  "except_ValueError e a = (if e = ValueError then Inr a else Inl (e, a))"

definition set_int :: "(int \<Rightarrow> aircraft \<Rightarrow> aircraft) \<Rightarrow> string \<Rightarrow> aircraft \<Rightarrow> aircraft raising" where
  \<comment> \<open>\<open>if s: try: aircraft[key] = int(float(s)) except (ValueError, TypeError): pass\<close>\<close>
  "set_int assign s a =
     (if s \<noteq> [] then
        (case int_float s of
           Inr n \<Rightarrow> Inr (assign n a)
         | Inl e \<Rightarrow> except_ValueError e a)
      else Inr a)"

definition set_position :: "string \<Rightarrow> string \<Rightarrow> aircraft \<Rightarrow> aircraft raising" where
  \<comment> \<open>lines 94 to 99: \<open>lat\<close> is assigned before \<open>float(parts[15])\<close> is evaluated\<close>
  "set_position s14 s15 a =
     (if s14 \<noteq> [] \<and> s15 \<noteq> [] then
        (case float_py s14 of
           Inl e \<Rightarrow> except_ValueError e a
         | Inr x \<Rightarrow>
             (let a1 = a\<lparr>lat := Some x\<rparr> in
              case float_py s15 of
                Inl e \<Rightarrow> except_ValueError e a1
              | Inr y \<Rightarrow> Inr (a1\<lparr>lon := Some y\<rparr>)))
      else Inr a)"

definition set_callsign :: "string \<Rightarrow> aircraft \<Rightarrow> aircraft" where
  \<comment> \<open>\<open>callsign = s.strip(); if callsign: aircraft['callsign'] = callsign\<close>\<close>
  "set_callsign s a = (let c = strip s in if c \<noteq> [] then a\<lparr>callsign := Some c\<rparr> else a)"

definition update_fields :: "string \<Rightarrow> string list \<Rightarrow> aircraft \<Rightarrow> aircraft raising" where
  \<comment> \<open>lines 83 to 126\<close>
  "update_fields msg_type parts a =
     (if msg_type = ''1'' \<and> length parts > 10 then
        Inr (set_callsign (parts ! 10) a)
      else if msg_type = ''3'' \<and> length parts > 15 then
        (case set_int (\<lambda>n a. a\<lparr>alt := Some n\<rparr>) (parts ! 11) a of
           Inl x \<Rightarrow> Inl x
         | Inr a1 \<Rightarrow> set_position (parts ! 14) (parts ! 15) a1)
      else if msg_type = ''4'' \<and> length parts > 13 then
        (case set_int (\<lambda>n a. a\<lparr>speed := Some n\<rparr>) (parts ! 12) a of
           Inl x \<Rightarrow> Inl x
         | Inr a1 \<Rightarrow> set_int (\<lambda>n a. a\<lparr>heading := Some n\<rparr>) (parts ! 13) a1)
      else if msg_type = ''5'' \<and> length parts > 11 then
        set_int (\<lambda>n a. a\<lparr>alt := Some n\<rparr>) (parts ! 11)
          (if parts ! 10 \<noteq> [] then set_callsign (parts ! 10) a else a)
      else if msg_type = ''6'' \<and> length parts > 17 then
        Inr (if parts ! 17 \<noteq> [] then a\<lparr>squawk := Some (parts ! 17)\<rparr> else a)
      else Inr a)"

definition publish :: "rat \<Rightarrow> globals \<times> reader \<Rightarrow> globals \<times> reader" where
  \<comment> \<open>lines 131 to 140, with \<open>now\<close> the reading of the clock\<close>
  "publish now = (\<lambda>(g, rd).
     (if now - last_update rd \<ge> 1 then
        (g\<lparr>adsb_queue := adsb_queue g @
              map Aircraft (List.map_filter (adsb_aircraft g) (pending_updates rd))\<rparr>,
         rd\<lparr>pending_updates := [], last_update := now, ticks := Suc (ticks rd)\<rparr>)
      else (g, rd\<lparr>ticks := Suc (ticks rd)\<rparr>)))"

definition handle_line :: "rat \<Rightarrow> string \<Rightarrow> globals \<times> reader \<Rightarrow> (globals \<times> reader) raising" where
  \<comment> \<open>lines 68 to 140: one pass of the loop over the lines of the buffer. An aircraft
      found in the registry is the registry's own dict, so what is assigned to it before an
      exception is in the registry.\<close>
  "handle_line now raw = (\<lambda>(g, rd).
     (let line = strip raw in
      if line = [] then Inr (g, rd)
      else
        let parts = split CHR '','' line in
        if length parts < 11 \<or> parts ! 0 \<noteq> ''MSG'' then Inr (g, rd)
        else
          let msg_type = parts ! 1; icao = upper (parts ! 4) in
          if icao = [] then Inr (g, rd)
          else
            (case update_fields msg_type parts
                    (case adsb_aircraft g icao of Some a \<Rightarrow> a | None \<Rightarrow> new_aircraft icao) of
               Inl (e, a') \<Rightarrow>
                 Inl (e, (if adsb_aircraft g icao \<noteq> None
                          then g\<lparr>adsb_aircraft := (adsb_aircraft g)(icao \<mapsto> a')\<rparr> else g, rd))
             | Inr a' \<Rightarrow>
                 Inr (publish now
                        (g\<lparr>adsb_aircraft := (adsb_aircraft g)(icao \<mapsto> a')\<rparr>,
                         rd\<lparr>pending_updates := List.insert icao (pending_updates rd)\<rparr>)))))"

section \<open>The reader thread\<close>

fun handle_lines :: "(nat \<Rightarrow> rat) \<Rightarrow> string list \<Rightarrow> globals \<times> reader \<Rightarrow> (globals \<times> reader) raising" where
  \<comment> \<open>the loop \<open>while '\n' in buffer\<close> over the complete lines; \<open>clock n\<close> is the reading
      with number \<open>n\<close> of \<open>time.time()\<close> on this connection\<close>
  "handle_lines clock [] st = Inr st"
| "handle_lines clock (l # ls) st =
     (case handle_line (clock (ticks (snd st))) l st of
        Inl x \<Rightarrow> Inl x
      | Inr st' \<Rightarrow> handle_lines clock ls st')"

definition receive :: "(nat \<Rightarrow> rat) \<Rightarrow> string \<Rightarrow> globals \<times> reader \<Rightarrow> (globals \<times> reader) raising" where
  \<comment> \<open>lines 64 to 140: \<open>buffer += data\<close>, then every complete line; the text after the
      last newline stays in the buffer\<close>
  "receive clock data = (\<lambda>(g, rd).
     (let ls = split (CHR 0x0A) (buffer rd @ data)
      in handle_lines clock (butlast ls) (g, rd\<lparr>buffer := last ls\<rparr>)))"

datatype recv = Data string | Timeout | SockError
  \<comment> \<open>\<open>sock.recv(4096).decode('utf-8', errors='ignore')\<close>: the text (empty when the peer
      has closed), \<open>socket.timeout\<close>, or another exception\<close>

datatype ending = Left | Failed | Reading
  \<comment> \<open>how a connection ends: the inner loop is left (\<open>sock.close()\<close> follows), an exception
      reaches the outer handler, or the connection is still being read\<close>

fun read_loop :: "(nat \<Rightarrow> rat) \<Rightarrow> (bool \<times> recv) list \<Rightarrow> globals \<times> reader \<Rightarrow> ending \<times> globals" where
  \<comment> \<open>lines 59 to 143; each pass reads the flag \<open>adsb_using_service\<close>, which other threads
      set, and then the socket\<close>
  "read_loop clock [] (g, rd) = (Reading, g)"
| "read_loop clock ((flag, r) # rs) (g, rd) =
     (if \<not> flag then (Left, g)
      else
        (case r of
           Timeout \<Rightarrow> read_loop clock rs (g, rd)
         | SockError \<Rightarrow> (Failed, g)
         | Data d \<Rightarrow>
             if d = [] then (Left, g)
             else
               (case receive clock d (g, rd) of
                  Inl (e, (g', rd')) \<Rightarrow> (Failed, g')
                | Inr st' \<Rightarrow> read_loop clock rs st')))"

definition new_reader :: "(nat \<Rightarrow> rat) \<Rightarrow> reader" where
  \<comment> \<open>lines 55 to 57\<close>
  "new_reader clock = \<lparr>buffer = [], last_update = clock 0, pending_updates = [], ticks = 1\<rparr>"

datatype attempt = Refused | Connected "nat \<Rightarrow> rat" "(bool \<times> recv) list"
  \<comment> \<open>\<open>connect\<close> raises, or the connection is made: its clock and what each pass of the
      inner loop reads\<close>

datatype action = Connect | Close | Sleep nat | Return
  \<comment> \<open>what the supervisor does, in order: a connection attempt, \<open>sock.close()\<close>,
      \<open>time.sleep(n)\<close>, and the return of \<open>parse_sbs_stream\<close>\<close>

fun parse_sbs_stream :: "(bool \<times> attempt) list \<Rightarrow> globals \<Rightarrow> action list \<times> globals" where
  \<comment> \<open>lines 48 to 150, for the address \<open>localhost:30003\<close> of line 197; each pass of the
      outer loop reads the flag, then connects. When the list is used up the thread is
      still in the loop (no \<open>Return\<close>).\<close>
  "parse_sbs_stream [] g = ([], g)"
| "parse_sbs_stream ((flag, a) # as) g =
     (if \<not> flag then ([Return], g)
      else
        (case a of
           Refused \<Rightarrow>
             (let (acts, g') = parse_sbs_stream as g in (Connect # Sleep 2 # acts, g'))
         | Connected clock steps \<Rightarrow>
             (case read_loop clock steps (g, new_reader clock) of
                (Left, g1) \<Rightarrow>
                  (let (acts, g') = parse_sbs_stream as g1 in (Connect # Close # acts, g'))
              | (Failed, g1) \<Rightarrow>
                  (let (acts, g') = parse_sbs_stream as g1 in (Connect # Sleep 2 # acts, g'))
              | (Reading, g1) \<Rightarrow> ([Connect], g1))))"

section \<open>Starting and stopping\<close>

type_synonym response = "(string \<times> string) list"
  \<comment> \<open>the JSON object of \<open>jsonify\<close>\<close>

text \<open>
  What \<open>start_adsb\<close> reads from outside: the \<open>gain\<close> and \<open>device\<close> of the request body (a
  JSON object, or none), \<open>shutil.which\<close>, whether \<open>Popen\<close> raises (and the text of the
  exception), whether the process has exited after the three seconds, and whether
  \<open>thread.start()\<close> raises.
\<close>

record start_env =
  request_gain :: "string option"
  request_device :: "string option"
  which :: "string \<Rightarrow> string option"
  popen :: "string list \<Rightarrow> string option"
  exited :: bool
  thread_error :: "string option"

definition find_dump1090 :: "start_env \<Rightarrow> string option" where
  \<comment> \<open>line 177: the first of the three names that \<open>shutil.which\<close> finds\<close>
  "find_dump1090 env =
     (case which env ''dump1090'' of
        Some p \<Rightarrow> Some p
      | None \<Rightarrow>
          (case which env ''dump1090-mutability'' of
             Some p \<Rightarrow> Some p
           | None \<Rightarrow> which env ''dump1090-fa''))"

definition command :: "start_env \<Rightarrow> string \<Rightarrow> string list" where
  \<comment> \<open>lines 173 to 175 and 182\<close>
  "command env path =
     (let gain = (case request_gain env of Some v \<Rightarrow> v | None \<Rightarrow> ''40'');
          device = (case request_device env of Some v \<Rightarrow> v | None \<Rightarrow> ''0'')
      in [path, ''--net'', ''--gain'', gain, ''--device-index'', device, ''--quiet''])"

definition start_adsb :: "start_env \<Rightarrow> globals \<Rightarrow> response \<times> globals" where
  \<comment> \<open>lines 163 to 202\<close>
  "start_adsb env g =
     (if adsb_process g = Some True then
        ([(''status'', ''already_running''), (''message'', ''ADS-B already running'')], g)
      else if adsb_using_service g then
        ([(''status'', ''already_running''),
          (''message'', ''ADS-B already running (using service)'')], g)
      else
        (case find_dump1090 env of
           None \<Rightarrow> ([(''status'', ''error''), (''message'', ''dump1090 not found.'')], g)
         | Some path \<Rightarrow>
             (case popen env (command env path) of
                Some msg \<Rightarrow> ([(''status'', ''error''), (''message'', msg)], g)
              | None \<Rightarrow>
                  if exited env then
                    ([(''status'', ''error''), (''message'', ''dump1090 failed to start.'')],
                     g\<lparr>adsb_process := Some False\<rparr>)
                  else
                    (case thread_error env of
                       Some msg \<Rightarrow>
                         ([(''status'', ''error''), (''message'', msg)],
                          g\<lparr>adsb_process := Some True, adsb_using_service := True\<rparr>)
                     | None \<Rightarrow>
                         ([(''status'', ''success''), (''message'', ''ADS-B tracking started'')],
                          g\<lparr>adsb_process := Some True, adsb_using_service := True,
                            readers := Suc (readers g)\<rparr>)))))"

definition stop_adsb :: "globals \<Rightarrow> response \<times> globals" where
  \<comment> \<open>lines 206 to 221; \<open>terminate\<close>, \<open>wait\<close> and \<open>kill\<close> act on the process, whose handle
      is dropped\<close>
  "stop_adsb g =
     (let g1 = (case adsb_process g of
                  Some running \<Rightarrow> g\<lparr>adsb_process := None\<rparr>
                | None \<Rightarrow> g)
      in ([(''status'', ''stopped'')],
          g1\<lparr>adsb_using_service := False, adsb_aircraft := Map.empty\<rparr>))"

section \<open>Subscribers\<close>

definition generate :: "event list \<Rightarrow> event \<times> event list" where
  \<comment> \<open>lines 228 to 233, one pass: the head of the queue, or a keepalive when the queue
      stays empty for the second waited\<close>
  "generate q = (case q of [] \<Rightarrow> (Keepalive, []) | e # q' \<Rightarrow> (e, q'))"

datatype op = Put event | Get nat
  \<comment> \<open>the reader thread puts an event; the subscriber with this number makes one pass\<close>

fun run :: "op list \<Rightarrow> event list \<times> (nat \<times> event) list \<Rightarrow> event list \<times> (nat \<times> event) list" where
  \<comment> \<open>an interleaving of the reader thread and the subscribers: the queue, and what was
      sent to which subscriber, in order\<close>
  "run [] st = st"
| "run (Put e # ops) (q, sent) = run ops (q @ [e], sent)"
| "run (Get i # ops) (q, sent) = (let (e, q') = generate q in run ops (q', sent @ [(i, e)]))"

fun puts :: "op list \<Rightarrow> event list" where
  "puts [] = []"
| "puts (Put e # ops) = e # puts ops"
| "puts (Get i # ops) = puts ops"

section \<open>Vocabulary of the properties\<close>

definition state_of :: "'a raising \<Rightarrow> 'a" where
  \<comment> \<open>the state after a step, whether it returned or raised\<close>
  "state_of r = (case r of Inl (e, x) \<Rightarrow> x | Inr x \<Rightarrow> x)"

definition fields :: "string \<Rightarrow> string list" where
  \<comment> \<open>the comma-separated fields of a line, as line 72 computes them\<close>
  "fields raw = split CHR '','' (strip raw)"

definition field :: "string \<Rightarrow> nat \<Rightarrow> string" where
  \<comment> \<open>the text of field \<open>i\<close>, empty when the line has no such field\<close>
  "field raw i = (if i < length (fields raw) then fields raw ! i else [])"

definition accepted :: "string \<Rightarrow> bool" where
  \<comment> \<open>the line passes the guards of lines 69 to 79\<close>
  "accepted raw = (11 \<le> length (fields raw) \<and> fields raw ! 0 = ''MSG'' \<and> fields raw ! 4 \<noteq> [])"

definition line_icao :: "string \<Rightarrow> string" where
  "line_icao raw = upper (fields raw ! 4)"

definition overflows :: "string \<Rightarrow> bool" where
  \<comment> \<open>\<open>float(s)\<close> is an infinity\<close>
  "overflows s = (case float_py s of Inr (Infinity b) \<Rightarrow> True | _ \<Rightarrow> False)"

definition keeps :: "'v option \<Rightarrow> 'v option \<Rightarrow> string \<Rightarrow> ('v \<Rightarrow> bool) \<Rightarrow> bool" where
  \<comment> \<open>a key of the dict keeps its value, or the text of the message is not empty and
      the new value is one that the text gives\<close>
  "keeps old new txt ok = (new = old \<or> (txt \<noteq> [] \<and> (\<exists>v. new = Some v \<and> ok v)))"

definition merged :: "string list \<Rightarrow> aircraft \<Rightarrow> aircraft \<Rightarrow> bool" where
  \<comment> \<open>\<open>a'\<close> is \<open>a\<close> with some of the fields of the message \<open>ps\<close> laid over it\<close>
  "merged ps a a' =
     (let f = (\<lambda>i. if i < length ps then ps ! i else []) in
      icao a' = icao a \<and>
      keeps (callsign a) (callsign a') (f 10) (\<lambda>v. v \<noteq> [] \<and> v = strip (f 10)) \<and>
      keeps (alt a) (alt a') (f 11) (\<lambda>n. int_float (f 11) = Inr n) \<and>
      keeps (lat a) (lat a') (f 14) (\<lambda>x. float_py (f 14) = Inr x) \<and>
      keeps (lon a) (lon a') (f 15) (\<lambda>x. float_py (f 15) = Inr x) \<and>
      keeps (speed a) (speed a') (f 12) (\<lambda>n. int_float (f 12) = Inr n) \<and>
      keeps (heading a) (heading a') (f 13) (\<lambda>n. int_float (f 13) = Inr n) \<and>
      keeps (squawk a) (squawk a') (f 17) (\<lambda>v. v \<noteq> [] \<and> v = f 17))"

definition line_update :: "string \<Rightarrow> aircraft" where
  \<comment> \<open>the partial update of a line: what lines 83 to 126 set, on a record that holds the
      identifier and nothing else\<close>
  "line_update raw =
     state_of (update_fields (fields raw ! 1) (fields raw) (new_aircraft (line_icao raw)))"

definition overlay :: "aircraft \<Rightarrow> aircraft \<Rightarrow> aircraft" where
  \<comment> \<open>the record \<open>a\<close> with every field that the partial update \<open>d\<close> holds laid over it: the
      value of \<open>d\<close> wins, a field that \<open>d\<close> does not hold stays\<close>
  "overlay d a =
     \<lparr>icao = icao a,
      callsign = (case callsign d of Some v \<Rightarrow> Some v | None \<Rightarrow> callsign a),
      alt = (case alt d of Some v \<Rightarrow> Some v | None \<Rightarrow> alt a),
      lat = (case lat d of Some v \<Rightarrow> Some v | None \<Rightarrow> lat a),
      lon = (case lon d of Some v \<Rightarrow> Some v | None \<Rightarrow> lon a),
      speed = (case speed d of Some v \<Rightarrow> Some v | None \<Rightarrow> speed a),
      heading = (case heading d of Some v \<Rightarrow> Some v | None \<Rightarrow> heading a),
      squawk = (case squawk d of Some v \<Rightarrow> Some v | None \<Rightarrow> squawk a)\<rparr>"

definition merge_line :: "string \<Rightarrow> (string \<rightharpoonup> aircraft) \<Rightarrow> (string \<rightharpoonup> aircraft)" where
  \<comment> \<open>the registry after a line: a line that passes the guards lays its partial update
      over the record of its aircraft (a new record if there is none); any other line
      changes nothing\<close>
  "merge_line raw reg =
     (if accepted raw then
        reg(line_icao raw \<mapsto>
          overlay (line_update raw)
            (case reg (line_icao raw) of
               Some a \<Rightarrow> a | None \<Rightarrow> new_aircraft (line_icao raw)))
      else reg)"

definition lays_over :: "(aircraft \<Rightarrow> aircraft raising) \<Rightarrow> bool" where
  \<comment> \<open>a step on a record that lays one fixed partial update over whatever record it is
      given, and returns or raises whatever the record\<close>
  "lays_over F =
     (\<exists>d. (\<forall>a. F a = Inr (overlay d a)) \<or> (\<exists>e. \<forall>a. F a = Inl (e, overlay d a)))"

definition idle :: globals where
  \<comment> \<open>no session: the flag as line 22 sets it, no decoder, nothing in the registry or in
      the queue, no reader thread\<close>
  "idle =
     \<lparr>adsb_using_service = False, adsb_process = None, adsb_aircraft = Map.empty,
      adsb_queue = [], readers = 0\<rparr>"

definition tracking :: globals where
  \<comment> \<open>a session that has just started: the flag set, the decoder running, one reader
      thread, nothing received yet\<close>
  "tracking =
     \<lparr>adsb_using_service = True, adsb_process = Some True, adsb_aircraft = Map.empty,
      adsb_queue = [], readers = 1\<rparr>"

section \<open>Lines that are skipped, lines that are merged\<close>

lemma strip_Nil [simp]: "strip [] = []"
  by (simp add: strip_def strip_by_def)

lemma upper_Nil [simp]: "upper s = [] \<longleftrightarrow> s = []"
  by (simp add: upper_def)

lemma state_of_simps [simp]: "state_of (Inr x) = x" "state_of (Inl (e, x)) = x"
  by (simp_all add: state_of_def)

lemma handle_line_skip: "\<not> accepted raw \<Longrightarrow> handle_line now raw (g, rd) = Inr (g, rd)"
  by (auto simp: accepted_def handle_line_def fields_def Let_def)

lemma handle_line_accepted:
  "accepted raw \<Longrightarrow> handle_line now raw (g, rd) =
     (case update_fields (fields raw ! 1) (fields raw)
             (case adsb_aircraft g (line_icao raw) of
                Some a \<Rightarrow> a | None \<Rightarrow> new_aircraft (line_icao raw)) of
        Inl (e, a') \<Rightarrow>
          Inl (e, (if adsb_aircraft g (line_icao raw) \<noteq> None
                   then g\<lparr>adsb_aircraft := (adsb_aircraft g)(line_icao raw \<mapsto> a')\<rparr> else g, rd))
      | Inr a' \<Rightarrow>
          Inr (publish now
                 (g\<lparr>adsb_aircraft := (adsb_aircraft g)(line_icao raw \<mapsto> a')\<rparr>,
                  rd\<lparr>pending_updates := List.insert (line_icao raw) (pending_updates rd)\<rparr>)))"
  unfolding accepted_def handle_line_def fields_def line_icao_def
  by (auto simp: Let_def)

lemma publish_registry [simp]: "adsb_aircraft (fst (publish now (g, rd))) = adsb_aircraft g"
  by (simp add: publish_def)

lemma keeps_refl: "keeps x x t ok"
  by (simp add: keeps_def)

lemma keeps_trans: "keeps x y t ok \<Longrightarrow> keeps y z t ok \<Longrightarrow> keeps x z t ok"
  by (auto simp: keeps_def)

lemma merged_refl: "merged ps a a"
  by (simp add: merged_def keeps_refl)

lemma merged_trans: "merged ps a b \<Longrightarrow> merged ps b c \<Longrightarrow> merged ps a c"
  unfolding merged_def Let_def
  by (elim conjE, intro conjI) (simp, (erule (1) keeps_trans)+)

lemma merged_bind:
  assumes "merged ps a (state_of r)"
    and "\<And>a1. r = Inr a1 \<Longrightarrow> merged ps a1 (state_of (f a1))"
  shows "merged ps a (state_of (case r of Inl x \<Rightarrow> Inl x | Inr a1 \<Rightarrow> f a1))"
proof (cases r)
  case (Inl x)
  with assms(1) show ?thesis by simp
next
  case (Inr a1)
  with assms have "merged ps a a1" "merged ps a1 (state_of (f a1))"
    by simp_all
  with Inr show ?thesis by (auto intro: merged_trans)
qed

lemma merged_set_alt:
  "11 < length ps \<Longrightarrow> merged ps a (state_of (set_int (\<lambda>n a. a\<lparr>alt := Some n\<rparr>) (ps ! 11) a))"
  by (auto simp: set_int_def merged_def keeps_def except_ValueError_def split: sum.splits)

lemma merged_set_speed:
  "12 < length ps \<Longrightarrow> merged ps a (state_of (set_int (\<lambda>n a. a\<lparr>speed := Some n\<rparr>) (ps ! 12) a))"
  by (auto simp: set_int_def merged_def keeps_def except_ValueError_def split: sum.splits)

lemma merged_set_heading:
  "13 < length ps \<Longrightarrow> merged ps a (state_of (set_int (\<lambda>n a. a\<lparr>heading := Some n\<rparr>) (ps ! 13) a))"
  by (auto simp: set_int_def merged_def keeps_def except_ValueError_def split: sum.splits)

lemma merged_set_position:
  "15 < length ps \<Longrightarrow> merged ps a (state_of (set_position (ps ! 14) (ps ! 15) a))"
  by (auto simp: set_position_def merged_def keeps_def except_ValueError_def Let_def
      split: sum.splits)

lemma merged_set_callsign:
  "10 < length ps \<Longrightarrow> merged ps a (set_callsign (ps ! 10) a)"
  by (auto simp: set_callsign_def merged_def keeps_def Let_def)

lemma merged_set_squawk:
  "17 < length ps \<Longrightarrow> ps ! 17 \<noteq> [] \<Longrightarrow> merged ps a (a\<lparr>squawk := Some (ps ! 17)\<rparr>)"
  by (auto simp: merged_def keeps_def Let_def)

lemma update_fields_merged: "merged ps a (state_of (update_fields t ps a))"
  unfolding update_fields_def
  by (auto simp: merged_refl merged_set_callsign merged_set_squawk merged_set_alt
        merged_set_speed merged_set_heading merged_set_position
        intro!: merged_bind merged_trans [OF merged_set_callsign merged_set_alt])

lemma handle_line_merged:
  assumes "adsb_aircraft g k = Some a"
  shows "\<exists>a'. adsb_aircraft (fst (state_of (handle_line now raw (g, rd)))) k = Some a'
           \<and> merged (fields raw) a a'"
proof (cases "accepted raw")
  case False
  with assms show ?thesis by (simp add: handle_line_skip merged_refl)
next
  case True
  show ?thesis
  proof (cases "k = line_icao raw")
    case False
    with True assms show ?thesis
      by (auto simp: handle_line_accepted merged_refl split: sum.splits)
  next
    case k: True
    have m: "merged (fields raw) a (state_of (update_fields (fields raw ! 1) (fields raw) a))"
      by (rule update_fields_merged)
    from True k assms m show ?thesis
      by (auto simp: handle_line_accepted split: sum.splits)
  qed
qed

section \<open>Merging is monotonic\<close>

lemma fields_callsign_line:
  "fields ''MSG,1,1,1,ABC123,1,2024,1,1,,UAL123  ,,,,,,,,,,,0'' =
     [''MSG'', ''1'', ''1'', ''1'', ''ABC123'', ''1'', ''2024'', ''1'', ''1'', [], ''UAL123  '',
      [], [], [], [], [], [], [], [], [], [], ''0'']"
  by code_simp

text \<open>
  Claim C1. Whatever line is handled, and whether or not handling it raises, an aircraft
  that is in the registry stays there under its key with the same \<open>icao\<close>, and each of its
  fields either keeps its value or takes a new value that is present (and, for the
  callsign and the squawk, not the empty string) while the field's text in the line is not
  empty. So a field that the line leaves out or leaves empty is neither cleared nor changed.
\<close>

theorem merge_is_monotonic:
  assumes "adsb_aircraft g k = Some a"
  shows "\<exists>a'. adsb_aircraft (fst (state_of (handle_line now raw (g, rd)))) k = Some a' \<and>
           icao a' = icao a \<and>
           (callsign a' = callsign a \<or> field raw 10 \<noteq> [] \<and> (\<exists>v. v \<noteq> [] \<and> callsign a' = Some v)) \<and>
           (alt a' = alt a \<or> field raw 11 \<noteq> [] \<and> (\<exists>n. alt a' = Some n)) \<and>
           (lat a' = lat a \<or> field raw 14 \<noteq> [] \<and> (\<exists>x. lat a' = Some x)) \<and>
           (lon a' = lon a \<or> field raw 15 \<noteq> [] \<and> (\<exists>x. lon a' = Some x)) \<and>
           (speed a' = speed a \<or> field raw 12 \<noteq> [] \<and> (\<exists>n. speed a' = Some n)) \<and>
           (heading a' = heading a \<or> field raw 13 \<noteq> [] \<and> (\<exists>n. heading a' = Some n)) \<and>
           (squawk a' = squawk a \<or> field raw 17 \<noteq> [] \<and> (\<exists>v. v \<noteq> [] \<and> squawk a' = Some v))"
proof -
  from handle_line_merged [OF assms] obtain a' where
    a': "adsb_aircraft (fst (state_of (handle_line now raw (g, rd)))) k = Some a'"
    and m: "merged (fields raw) a a'"
    by blast
  from m have "icao a' = icao a"
    and "callsign a' = callsign a \<or> field raw 10 \<noteq> [] \<and> (\<exists>v. v \<noteq> [] \<and> callsign a' = Some v)"
    and "alt a' = alt a \<or> field raw 11 \<noteq> [] \<and> (\<exists>n. alt a' = Some n)"
    and "lat a' = lat a \<or> field raw 14 \<noteq> [] \<and> (\<exists>x. lat a' = Some x)"
    and "lon a' = lon a \<or> field raw 15 \<noteq> [] \<and> (\<exists>x. lon a' = Some x)"
    and "speed a' = speed a \<or> field raw 12 \<noteq> [] \<and> (\<exists>n. speed a' = Some n)"
    and "heading a' = heading a \<or> field raw 13 \<noteq> [] \<and> (\<exists>n. heading a' = Some n)"
    and "squawk a' = squawk a \<or> field raw 17 \<noteq> [] \<and> (\<exists>v. v \<noteq> [] \<and> squawk a' = Some v)"
    unfolding merged_def keeps_def field_def Let_def by blast+
  with a' show ?thesis by blast
qed

theorem merge_is_monotonic_witness:
  "\<exists>a'. adsb_aircraft (fst (state_of (handle_line 0
             ''MSG,1,1,1,ABC123,1,2024,1,1,,UAL123  ,,,,,,,,,,,0''
             (tracking\<lparr>adsb_aircraft := [''ABC123'' \<mapsto> (new_aircraft ''ABC123'')\<lparr>alt := Some 5000\<rparr>]\<rparr>,
              new_reader (\<lambda>n. 0))))) ''ABC123'' = Some a' \<and>
        icao a' = ''ABC123'' \<and> alt a' = Some 5000 \<and> lat a' = None \<and> squawk a' = None"
proof -
  let ?g = "tracking\<lparr>adsb_aircraft := [''ABC123'' \<mapsto> (new_aircraft ''ABC123'')\<lparr>alt := Some 5000\<rparr>]\<rparr>"
  have h: "adsb_aircraft ?g ''ABC123'' = Some ((new_aircraft ''ABC123'')\<lparr>alt := Some 5000\<rparr>)"
    by simp
  have f: "field ''MSG,1,1,1,ABC123,1,2024,1,1,,UAL123  ,,,,,,,,,,,0'' 11 = []"
    "field ''MSG,1,1,1,ABC123,1,2024,1,1,,UAL123  ,,,,,,,,,,,0'' 14 = []"
    "field ''MSG,1,1,1,ABC123,1,2024,1,1,,UAL123  ,,,,,,,,,,,0'' 17 = []"
    by (simp_all add: field_def fields_callsign_line)
  from merge_is_monotonic [OF h, of 0 "''MSG,1,1,1,ABC123,1,2024,1,1,,UAL123  ,,,,,,,,,,,0''"
      "new_reader (\<lambda>n. 0)"] f
  show ?thesis by (auto simp: new_aircraft_def)
qed

section \<open>The example line of the specification\<close>

lemma fields_example_line:
  "fields ''MSG,3,1,1,ABC123,1,2024,1,1,,,5000,,,,40.1,-73.9,,,,,,0'' =
     [''MSG'', ''3'', ''1'', ''1'', ''ABC123'', ''1'', ''2024'', ''1'', ''1'', [], [], ''5000'',
      [], [], [], ''40.1'', ''-73.9'', [], [], [], [], [], ''0'']"
  by code_simp

lemma fields_position_line:
  "fields ''MSG,3,1,1,ABC123,1,2024,1,1,,,5000,,,40.1,-73.9,,,,,,0'' =
     [''MSG'', ''3'', ''1'', ''1'', ''ABC123'', ''1'', ''2024'', ''1'', ''1'', [], [], ''5000'',
      [], [], ''40.1'', ''-73.9'', [], [], [], [], [], ''0'']"
  by code_simp

lemma upper_ABC123: "upper ''ABC123'' = ''ABC123''"
  by code_simp

lemma int_float_5000: "int_float ''5000'' = Inr 5000"
  by code_simp

lemma float_py_40_1:
  "float_py ''40.1'' = Inr (Finite False (5643573283048653 / 140737488355328))"
  by code_simp

lemma float_py_minus_73_9:
  "float_py ''-73.9'' = Inr (Finite True (2600125097364685 / 35184372088832))"
  by code_simp

lemma accepted_example_line:
  "accepted ''MSG,3,1,1,ABC123,1,2024,1,1,,,5000,,,,40.1,-73.9,,,,,,0''"
  "line_icao ''MSG,3,1,1,ABC123,1,2024,1,1,,,5000,,,,40.1,-73.9,,,,,,0'' = ''ABC123''"
  by (simp_all add: accepted_def line_icao_def fields_example_line upper_ABC123)

lemma accepted_position_line:
  "accepted ''MSG,3,1,1,ABC123,1,2024,1,1,,,5000,,,40.1,-73.9,,,,,,0''"
  "line_icao ''MSG,3,1,1,ABC123,1,2024,1,1,,,5000,,,40.1,-73.9,,,,,,0'' = ''ABC123''"
  by (simp_all add: accepted_def line_icao_def fields_position_line upper_ABC123)

text \<open>
  The values that \<open>float\<close> gives for the two texts are the binary64 numbers next to 40.1
  and to -73.9; with them in fields 14 and 15 the record takes all three values.
\<close>

lemma position_line_sets_all:
  "adsb_aircraft (fst (state_of (handle_line now
       ''MSG,3,1,1,ABC123,1,2024,1,1,,,5000,,,40.1,-73.9,,,,,,0''
       (g\<lparr>adsb_aircraft := Map.empty\<rparr>, rd)))) ''ABC123'' =
     Some \<lparr>icao = ''ABC123'', callsign = None, alt = Some 5000,
           lat = Some (Finite False (5643573283048653 / 140737488355328)),
           lon = Some (Finite True (2600125097364685 / 35184372088832)),
           speed = None, heading = None, squawk = None\<rparr>"
  by (simp add: handle_line_accepted accepted_position_line fields_position_line
      update_fields_def set_int_def set_position_def int_float_5000 float_py_40_1
      float_py_minus_73_9 new_aircraft_def)

text \<open>
  Claim C3, as stated, fails: in the line of the specification the texts 40.1 and -73.9 are
  fields 15 and 16 and field 14 is empty, so the record does not get the latitude (nor the
  longitude) that the claim names.
\<close>

theorem example_line_counterexample:
  "map_option (\<lambda>a. (alt a, lat a, lon a))
     (adsb_aircraft (fst (state_of (handle_line 0
        ''MSG,3,1,1,ABC123,1,2024,1,1,,,5000,,,,40.1,-73.9,,,,,,0''
        (tracking, new_reader (\<lambda>n. 0))))) ''ABC123'')
   \<noteq> Some (Some 5000, Some (Finite False (5643573283048653 / 140737488355328)),
            Some (Finite True (2600125097364685 / 35184372088832)))"
  by (simp add: handle_line_accepted accepted_example_line fields_example_line tracking_def
      update_fields_def set_int_def set_position_def int_float_5000 new_aircraft_def)

text \<open>
  Claim C3, amended. Handling the line of the specification with an empty registry returns
  and leaves in the registry one record, under \<open>ABC123\<close>, with the altitude 5000 and
  neither a latitude nor a longitude.
\<close>

theorem example_line_sets_altitude_only:
  "\<exists>st. handle_line now ''MSG,3,1,1,ABC123,1,2024,1,1,,,5000,,,,40.1,-73.9,,,,,,0''
          (g\<lparr>adsb_aircraft := Map.empty\<rparr>, rd) = Inr st \<and>
        adsb_aircraft (fst st) =
          [''ABC123'' \<mapsto>
             \<lparr>icao = ''ABC123'', callsign = None, alt = Some 5000, lat = None, lon = None,
              speed = None, heading = None, squawk = None\<rparr>]"
  by (simp add: handle_line_accepted accepted_example_line fields_example_line
      update_fields_def set_int_def set_position_def int_float_5000 new_aircraft_def)

section \<open>Numbers that do not parse\<close>

lemma float_py_Inl: "float_py s = Inl e \<Longrightarrow> e = ValueError"
  by (auto simp: float_py_def Let_def split: prod.splits if_splits option.splits)

lemma int_float_OverflowError: "int_float s = Inl OverflowError \<Longrightarrow> overflows s"
proof (cases "float_py s")
  case (Inl e)
  assume "int_float s = Inl OverflowError"
  with Inl float_py_Inl [OF Inl] show ?thesis by (simp add: int_float_def)
next
  case (Inr x)
  assume "int_float s = Inl OverflowError"
  with Inr show ?thesis by (cases x) (simp_all add: int_float_def overflows_def)
qed

lemma int_float_rejected: "float_py s = Inl ValueError \<Longrightarrow> int_float s = Inl ValueError"
  by (simp add: int_float_def)

lemma set_int_returns: "\<not> overflows s \<Longrightarrow> \<exists>a'. set_int assign s a = Inr a'"
proof (cases "int_float s")
  case (Inr n)
  then show ?thesis by (simp add: set_int_def)
next
  case (Inl e)
  assume "\<not> overflows s"
  with Inl int_float_OverflowError [of s] have "e = ValueError" by (cases e) auto
  with Inl show ?thesis by (simp add: set_int_def except_ValueError_def)
qed

lemma set_position_returns: "\<exists>a'. set_position s14 s15 a = Inr a'"
  by (auto simp: set_position_def except_ValueError_def Let_def split: sum.splits
      dest: float_py_Inl)

lemma update_fields_returns:
  assumes "\<not> overflows (if 11 < length ps then ps ! 11 else [])"
    and "\<not> overflows (if 12 < length ps then ps ! 12 else [])"
    and "\<not> overflows (if 13 < length ps then ps ! 13 else [])"
  shows "\<exists>a'. update_fields t ps a = Inr a'"
proof -
  have 3: "15 < length ps \<Longrightarrow>
      \<exists>a'. (case set_int (\<lambda>n a. a\<lparr>alt := Some n\<rparr>) (ps ! 11) a of
                Inl x \<Rightarrow> Inl x | Inr a1 \<Rightarrow> set_position (ps ! 14) (ps ! 15) a1) = Inr a'"
    using assms(1) set_int_returns [of "ps ! 11" "\<lambda>n a. a\<lparr>alt := Some n\<rparr>" a]
      set_position_returns [of "ps ! 14" "ps ! 15"]
    by (auto split: sum.splits)
  have 4: "13 < length ps \<Longrightarrow>
      \<exists>a'. (case set_int (\<lambda>n a. a\<lparr>speed := Some n\<rparr>) (ps ! 12) a of
                Inl x \<Rightarrow> Inl x
              | Inr a1 \<Rightarrow> set_int (\<lambda>n a. a\<lparr>heading := Some n\<rparr>) (ps ! 13) a1) = Inr a'"
    using assms(2,3) set_int_returns [of "ps ! 12" "\<lambda>n a. a\<lparr>speed := Some n\<rparr>" a]
      set_int_returns [of "ps ! 13" "\<lambda>n a. a\<lparr>heading := Some n\<rparr>"]
    by (auto split: sum.splits)
  have 5: "11 < length ps \<Longrightarrow> \<exists>a'. set_int (\<lambda>n a. a\<lparr>alt := Some n\<rparr>) (ps ! 11) b = Inr a'" for b
    using assms(1) set_int_returns [of "ps ! 11"] by simp
  show ?thesis
    unfolding update_fields_def using 3 4 5 by simp
qed

lemma handle_line_returns:
  assumes "accepted raw"
    and "\<not> overflows (field raw 11)" and "\<not> overflows (field raw 12)"
    and "\<not> overflows (field raw 13)"
  shows "\<exists>a'. handle_line now raw (g, rd) =
           Inr (publish now
                  (g\<lparr>adsb_aircraft := (adsb_aircraft g)(line_icao raw \<mapsto> a')\<rparr>,
                   rd\<lparr>pending_updates := List.insert (line_icao raw) (pending_updates rd)\<rparr>)) \<and>
           merged (fields raw)
             (case adsb_aircraft g (line_icao raw) of
                Some a \<Rightarrow> a | None \<Rightarrow> new_aircraft (line_icao raw)) a'"
proof -
  let ?a = "case adsb_aircraft g (line_icao raw) of
              Some a \<Rightarrow> a | None \<Rightarrow> new_aircraft (line_icao raw)"
  from assms(2-4) obtain a' where u: "update_fields (fields raw ! 1) (fields raw) ?a = Inr a'"
    using update_fields_returns [of "fields raw" "fields raw ! 1" ?a]
    unfolding field_def by blast
  from update_fields_merged [of "fields raw" ?a "fields raw ! 1"] u
  have "merged (fields raw) ?a a'" by simp
  with u assms(1) show ?thesis
    by (intro exI [of _ a']) (simp add: handle_line_accepted)
qed

lemma merged_rejected:
  assumes "merged ps a a'"
  shows "float_py (if 11 < length ps then ps ! 11 else []) = Inl ValueError \<Longrightarrow> alt a' = alt a"
    and "float_py (if 12 < length ps then ps ! 12 else []) = Inl ValueError \<Longrightarrow> speed a' = speed a"
    and "float_py (if 13 < length ps then ps ! 13 else []) = Inl ValueError \<Longrightarrow> heading a' = heading a"
    and "float_py (if 14 < length ps then ps ! 14 else []) = Inl ValueError \<Longrightarrow> lat a' = lat a"
    and "float_py (if 15 < length ps then ps ! 15 else []) = Inl ValueError \<Longrightarrow> lon a' = lon a"
  using assms unfolding merged_def keeps_def Let_def
  by (simp_all add: int_float_def)

lemma fields_too_few: "fields ''MSG,3,1,1,ABC123'' = [''MSG'', ''3'', ''1'', ''1'', ''ABC123'']"
  by code_simp

lemma fields_wrong_tag:
  "fields ''AIR,3,1,1,ABC123,1,2024,1,1,,,5000,,,40.1,-73.9'' =
     [''AIR'', ''3'', ''1'', ''1'', ''ABC123'', ''1'', ''2024'', ''1'', ''1'', [], [], ''5000'',
      [], [], ''40.1'', ''-73.9'']"
  by code_simp

lemma fields_altitude_abc:
  "fields ''MSG,3,1,1,ABC123,1,2024,1,1,,,abc,,,,'' =
     [''MSG'', ''3'', ''1'', ''1'', ''ABC123'', ''1'', ''2024'', ''1'', ''1'', [], [], ''abc'',
      [], [], [], []]"
  by code_simp

lemma accepted_altitude_abc:
  "accepted ''MSG,3,1,1,ABC123,1,2024,1,1,,,abc,,,,''"
  "line_icao ''MSG,3,1,1,ABC123,1,2024,1,1,,,abc,,,,'' = ''ABC123''"
  by (simp_all add: accepted_def line_icao_def fields_altitude_abc upper_ABC123)

lemma float_py_abc: "float_py ''abc'' = Inl ValueError"
  by code_simp

lemma float_py_empty: "float_py [] = Inl ValueError"
  by code_simp

text \<open>
  Claim C4, as stated, fails: a line whose altitude is the text \<open>abc\<close> is handled without
  an exception, but the registry is not what it was: the aircraft of the line is entered.
\<close>

theorem malformed_number_counterexample:
  "adsb_aircraft (fst (state_of (handle_line 0 ''MSG,3,1,1,ABC123,1,2024,1,1,,,abc,,,,''
      (tracking, new_reader (\<lambda>n. 0))))) \<noteq> adsb_aircraft tracking"
proof
  assume "adsb_aircraft (fst (state_of (handle_line 0 ''MSG,3,1,1,ABC123,1,2024,1,1,,,abc,,,,''
      (tracking, new_reader (\<lambda>n. 0))))) = adsb_aircraft tracking"
  then have "adsb_aircraft (fst (state_of (handle_line 0 ''MSG,3,1,1,ABC123,1,2024,1,1,,,abc,,,,''
      (tracking, new_reader (\<lambda>n. 0))))) ''ABC123'' = adsb_aircraft tracking ''ABC123''"
    by simp
  then show False
    by (simp add: handle_line_accepted accepted_altitude_abc fields_altitude_abc tracking_def
        update_fields_def set_int_def set_position_def int_float_def float_py_abc
        except_ValueError_def)
qed

text \<open>
  Claim C4, amended. A line with fewer than 11 fields, or whose first field is not \<open>MSG\<close>,
  is handled without an exception and changes nothing (registry, change set, queue and
  clock readings). A line that passes the guards, and none of whose fields 11, 12 and 13
  reads as an infinity, is handled without an exception, and its aircraft is in the
  registry afterwards; a number field (11 altitude, 12 speed, 13 heading, 14 latitude,
  15 longitude) whose text \<open>float\<close> rejects leaves that field of the record as it was
  (absent, for a new aircraft).
\<close>

theorem malformed_lines:
  "(length (fields raw) < 11 \<or> fields raw ! 0 \<noteq> ''MSG'' \<longrightarrow>
      handle_line now raw (g, rd) = Inr (g, rd)) \<and>
   (accepted raw \<and> \<not> overflows (field raw 11) \<and> \<not> overflows (field raw 12) \<and>
    \<not> overflows (field raw 13) \<longrightarrow>
      (\<exists>g' rd' a'. handle_line now raw (g, rd) = Inr (g', rd') \<and>
         adsb_aircraft g' (line_icao raw) = Some a' \<and>
         (float_py (field raw 11) = Inl ValueError \<longrightarrow>
            alt a' = Option.bind (adsb_aircraft g (line_icao raw)) alt) \<and>
         (float_py (field raw 12) = Inl ValueError \<longrightarrow>
            speed a' = Option.bind (adsb_aircraft g (line_icao raw)) speed) \<and>
         (float_py (field raw 13) = Inl ValueError \<longrightarrow>
            heading a' = Option.bind (adsb_aircraft g (line_icao raw)) heading) \<and>
         (float_py (field raw 14) = Inl ValueError \<longrightarrow>
            lat a' = Option.bind (adsb_aircraft g (line_icao raw)) lat) \<and>
         (float_py (field raw 15) = Inl ValueError \<longrightarrow>
            lon a' = Option.bind (adsb_aircraft g (line_icao raw)) lon)))"
proof (intro conjI impI)
  assume "length (fields raw) < 11 \<or> fields raw ! 0 \<noteq> ''MSG''"
  then have "\<not> accepted raw" by (auto simp: accepted_def)
  then show "handle_line now raw (g, rd) = Inr (g, rd)" by (rule handle_line_skip)
next
  let ?a = "case adsb_aircraft g (line_icao raw) of
              Some a \<Rightarrow> a | None \<Rightarrow> new_aircraft (line_icao raw)"
  assume "accepted raw \<and> \<not> overflows (field raw 11) \<and> \<not> overflows (field raw 12) \<and>
    \<not> overflows (field raw 13)"
  then obtain a' where
    h: "handle_line now raw (g, rd) =
          Inr (publish now
                 (g\<lparr>adsb_aircraft := (adsb_aircraft g)(line_icao raw \<mapsto> a')\<rparr>,
                  rd\<lparr>pending_updates := List.insert (line_icao raw) (pending_updates rd)\<rparr>))"
    and m: "merged (fields raw) ?a a'"
    using handle_line_returns [of raw now g rd] by blast
  have old: "f ?a = Option.bind (adsb_aircraft g (line_icao raw)) f"
    if "f (new_aircraft (line_icao raw)) = None" for f :: "aircraft \<Rightarrow> 'v option"
    using that by (cases "adsb_aircraft g (line_icao raw)") simp_all
  have
    "float_py (field raw 11) = Inl ValueError \<longrightarrow> alt a' = alt ?a"
    "float_py (field raw 12) = Inl ValueError \<longrightarrow> speed a' = speed ?a"
    "float_py (field raw 13) = Inl ValueError \<longrightarrow> heading a' = heading ?a"
    "float_py (field raw 14) = Inl ValueError \<longrightarrow> lat a' = lat ?a"
    "float_py (field raw 15) = Inl ValueError \<longrightarrow> lon a' = lon ?a"
    using merged_rejected [OF m] by (simp_all add: field_def)
  then have
    "float_py (field raw 11) = Inl ValueError \<longrightarrow>
       alt a' = Option.bind (adsb_aircraft g (line_icao raw)) alt"
    "float_py (field raw 12) = Inl ValueError \<longrightarrow>
       speed a' = Option.bind (adsb_aircraft g (line_icao raw)) speed"
    "float_py (field raw 13) = Inl ValueError \<longrightarrow>
       heading a' = Option.bind (adsb_aircraft g (line_icao raw)) heading"
    "float_py (field raw 14) = Inl ValueError \<longrightarrow>
       lat a' = Option.bind (adsb_aircraft g (line_icao raw)) lat"
    "float_py (field raw 15) = Inl ValueError \<longrightarrow>
       lon a' = Option.bind (adsb_aircraft g (line_icao raw)) lon"
    by (simp_all add: old new_aircraft_def)
  then show "\<exists>g' rd' a'. handle_line now raw (g, rd) = Inr (g', rd') \<and>
         adsb_aircraft g' (line_icao raw) = Some a' \<and>
         (float_py (field raw 11) = Inl ValueError \<longrightarrow>
            alt a' = Option.bind (adsb_aircraft g (line_icao raw)) alt) \<and>
         (float_py (field raw 12) = Inl ValueError \<longrightarrow>
            speed a' = Option.bind (adsb_aircraft g (line_icao raw)) speed) \<and>
         (float_py (field raw 13) = Inl ValueError \<longrightarrow>
            heading a' = Option.bind (adsb_aircraft g (line_icao raw)) heading) \<and>
         (float_py (field raw 14) = Inl ValueError \<longrightarrow>
            lat a' = Option.bind (adsb_aircraft g (line_icao raw)) lat) \<and>
         (float_py (field raw 15) = Inl ValueError \<longrightarrow>
            lon a' = Option.bind (adsb_aircraft g (line_icao raw)) lon)"
    unfolding h
    by (intro exI [of _ "fst (publish now
          (g\<lparr>adsb_aircraft := (adsb_aircraft g)(line_icao raw \<mapsto> a')\<rparr>,
           rd\<lparr>pending_updates := List.insert (line_icao raw) (pending_updates rd)\<rparr>))"]
        exI [of _ "snd (publish now
          (g\<lparr>adsb_aircraft := (adsb_aircraft g)(line_icao raw \<mapsto> a')\<rparr>,
           rd\<lparr>pending_updates := List.insert (line_icao raw) (pending_updates rd)\<rparr>))"]
        exI [of _ a']) simp
qed

lemma not_overflows_abc: "\<not> overflows ''abc''" "\<not> overflows []"
  by (simp_all add: overflows_def float_py_abc float_py_empty)

theorem malformed_lines_witness:
  "handle_line 0 ''MSG,3,1,1,ABC123'' (tracking, new_reader (\<lambda>n. 0)) =
     Inr (tracking, new_reader (\<lambda>n. 0)) \<and>
   handle_line 0 ''AIR,3,1,1,ABC123,1,2024,1,1,,,5000,,,40.1,-73.9''
       (tracking, new_reader (\<lambda>n. 0)) =
     Inr (tracking, new_reader (\<lambda>n. 0)) \<and>
   (\<exists>g' rd' a'.
      handle_line 0 ''MSG,3,1,1,ABC123,1,2024,1,1,,,abc,,,,''
        (tracking\<lparr>adsb_aircraft := [''ABC123'' \<mapsto> (new_aircraft ''ABC123'')\<lparr>alt := Some 5000\<rparr>]\<rparr>,
         new_reader (\<lambda>n. 0)) = Inr (g', rd') \<and>
      adsb_aircraft g' ''ABC123'' = Some a' \<and> alt a' = Some 5000)"
proof -
  have few: "length (fields ''MSG,3,1,1,ABC123'') < 11"
    by (simp add: fields_too_few)
  have tag: "fields ''AIR,3,1,1,ABC123,1,2024,1,1,,,5000,,,40.1,-73.9'' ! 0 \<noteq> ''MSG''"
    by (simp add: fields_wrong_tag)
  have abc: "field ''MSG,3,1,1,ABC123,1,2024,1,1,,,abc,,,,'' 11 = ''abc''"
    "field ''MSG,3,1,1,ABC123,1,2024,1,1,,,abc,,,,'' 12 = []"
    "field ''MSG,3,1,1,ABC123,1,2024,1,1,,,abc,,,,'' 13 = []"
    by (simp_all add: field_def fields_altitude_abc)
  let ?g = "tracking\<lparr>adsb_aircraft := [''ABC123'' \<mapsto> (new_aircraft ''ABC123'')\<lparr>alt := Some 5000\<rparr>]\<rparr>"
  have 1: "handle_line 0 ''MSG,3,1,1,ABC123'' (tracking, new_reader (\<lambda>n. 0)) =
      Inr (tracking, new_reader (\<lambda>n. 0))"
    using malformed_lines [of "''MSG,3,1,1,ABC123''" 0 tracking "new_reader (\<lambda>n. 0)"] few
    by blast
  have 2: "handle_line 0 ''AIR,3,1,1,ABC123,1,2024,1,1,,,5000,,,40.1,-73.9''
      (tracking, new_reader (\<lambda>n. 0)) = Inr (tracking, new_reader (\<lambda>n. 0))"
    using malformed_lines [of "''AIR,3,1,1,ABC123,1,2024,1,1,,,5000,,,40.1,-73.9''" 0 tracking
        "new_reader (\<lambda>n. 0)"] tag
    by blast
  have pre: "accepted ''MSG,3,1,1,ABC123,1,2024,1,1,,,abc,,,,'' \<and>
     \<not> overflows (field ''MSG,3,1,1,ABC123,1,2024,1,1,,,abc,,,,'' 11) \<and>
     \<not> overflows (field ''MSG,3,1,1,ABC123,1,2024,1,1,,,abc,,,,'' 12) \<and>
     \<not> overflows (field ''MSG,3,1,1,ABC123,1,2024,1,1,,,abc,,,,'' 13)"
    by (simp add: abc accepted_altitude_abc not_overflows_abc)
  from malformed_lines [of "''MSG,3,1,1,ABC123,1,2024,1,1,,,abc,,,,''" 0 ?g "new_reader (\<lambda>n. 0)"]
    pre
  obtain g' rd' a' where
    r: "handle_line 0 ''MSG,3,1,1,ABC123,1,2024,1,1,,,abc,,,,'' (?g, new_reader (\<lambda>n. 0)) =
          Inr (g', rd')"
    and e: "adsb_aircraft g' (line_icao ''MSG,3,1,1,ABC123,1,2024,1,1,,,abc,,,,'') = Some a'"
    and k: "float_py (field ''MSG,3,1,1,ABC123,1,2024,1,1,,,abc,,,,'' 11) = Inl ValueError \<longrightarrow>
          alt a' = Option.bind
            (adsb_aircraft ?g (line_icao ''MSG,3,1,1,ABC123,1,2024,1,1,,,abc,,,,'')) alt"
    by blast
  from k have "alt a' = Some 5000"
    by (simp add: abc float_py_abc accepted_altitude_abc)
  with r e have 3: "\<exists>g' rd' a'.
      handle_line 0 ''MSG,3,1,1,ABC123,1,2024,1,1,,,abc,,,,'' (?g, new_reader (\<lambda>n. 0)) =
        Inr (g', rd') \<and>
      adsb_aircraft g' ''ABC123'' = Some a' \<and> alt a' = Some 5000"
    by (auto simp: accepted_altitude_abc)
  from 1 2 3 show ?thesis by blast
qed

section \<open>Numbers that are infinite\<close>

lemma fields_altitude_inf:
  "fields ''MSG,3,1,1,ABC123,1,2024,1,1,,,inf,,,,'' =
     [''MSG'', ''3'', ''1'', ''1'', ''ABC123'', ''1'', ''2024'', ''1'', ''1'', [], [], ''inf'',
      [], [], [], []]"
  by code_simp

lemma accepted_altitude_inf:
  "accepted ''MSG,3,1,1,ABC123,1,2024,1,1,,,inf,,,,''"
  "line_icao ''MSG,3,1,1,ABC123,1,2024,1,1,,,inf,,,,'' = ''ABC123''"
  by (simp_all add: accepted_def line_icao_def fields_altitude_inf upper_ABC123)

lemma float_py_inf: "float_py ''inf'' = Inr (Infinity False)"
  by code_simp

text \<open>
  Claim C10 at a line whose altitude is the text \<open>inf\<close>. The line starts with \<open>MSG\<close>, has 16
  fields and the identifier \<open>ABC123\<close>; \<open>float\<close> reads the altitude as infinity, \<open>int\<close> raises
  \<open>OverflowError\<close>, which the handler for \<open>ValueError\<close> and \<open>TypeError\<close> lets through. Nothing
  is stored in the registry and the identifier is not added to the change set.
\<close>

theorem infinite_altitude_raises:
  "handle_line now ''MSG,3,1,1,ABC123,1,2024,1,1,,,inf,,,,''
     (g\<lparr>adsb_aircraft := Map.empty\<rparr>, rd) =
   Inl (OverflowError, (g\<lparr>adsb_aircraft := Map.empty\<rparr>, rd))"
  by (simp add: handle_line_accepted accepted_altitude_inf fields_altitude_inf
      update_fields_def set_int_def int_float_def float_py_inf except_ValueError_def)

section \<open>Latitude and longitude\<close>

lemma fields_longitude_abc:
  "fields ''MSG,3,1,1,ABC123,1,2024,1,1,,,,,,40.1,abc'' =
     [''MSG'', ''3'', ''1'', ''1'', ''ABC123'', ''1'', ''2024'', ''1'', ''1'', [], [], [],
      [], [], ''40.1'', ''abc'']"
  by code_simp

lemma accepted_longitude_abc:
  "accepted ''MSG,3,1,1,ABC123,1,2024,1,1,,,,,,40.1,abc''"
  "line_icao ''MSG,3,1,1,ABC123,1,2024,1,1,,,,,,40.1,abc'' = ''ABC123''"
  by (simp_all add: accepted_def line_icao_def fields_longitude_abc upper_ABC123)

text \<open>
  Claim C2 at a type 3 line of 16 fields whose field 14 is \<open>40.1\<close> and whose field 15 is
  \<open>abc\<close>, for an aircraft known at latitude 10 and longitude 20. \<open>float\<close> rejects field 15,
  but the latitude has been assigned by then: the record ends with the new latitude and
  the old longitude.
\<close>

theorem latitude_without_longitude:
  "\<exists>st. handle_line now ''MSG,3,1,1,ABC123,1,2024,1,1,,,,,,40.1,abc''
          (g\<lparr>adsb_aircraft := [''ABC123'' \<mapsto>
               \<lparr>icao = ''ABC123'', callsign = None, alt = None,
                lat = Some (Finite False 10), lon = Some (Finite False 20),
                speed = None, heading = None, squawk = None\<rparr>]\<rparr>, rd) = Inr st \<and>
        adsb_aircraft (fst st) ''ABC123'' =
          Some \<lparr>icao = ''ABC123'', callsign = None, alt = None,
                lat = Some (Finite False (5643573283048653 / 140737488355328)),
                lon = Some (Finite False 20),
                speed = None, heading = None, squawk = None\<rparr>"
  by (simp add: handle_line_accepted accepted_longitude_abc fields_longitude_abc
      update_fields_def set_int_def set_position_def float_py_40_1 float_py_abc
      except_ValueError_def)

section \<open>The publish tick\<close>

lemma publish_fires:
  "1 \<le> now - last_update rd \<Longrightarrow>
     publish now (g, rd) =
       (g\<lparr>adsb_queue := adsb_queue g @
            map (\<lambda>k. Aircraft (the (adsb_aircraft g k)))
              (filter (\<lambda>k. adsb_aircraft g k \<noteq> None) (pending_updates rd))\<rparr>,
        rd\<lparr>pending_updates := [], last_update := now, ticks := Suc (ticks rd)\<rparr>)"
  by (simp add: publish_def List.map_filter_def)

lemma publish_waits:
  "now - last_update rd < 1 \<Longrightarrow> publish now (g, rd) = (g, rd\<lparr>ticks := Suc (ticks rd)\<rparr>)"
  by (simp add: publish_def)

lemma handle_line_Inr:
  assumes "handle_line now raw (g, rd) = Inr (g', rd')" and "accepted raw"
  shows "\<exists>a'. (g', rd') =
           publish now
             (g\<lparr>adsb_aircraft := (adsb_aircraft g)(line_icao raw \<mapsto> a')\<rparr>,
              rd\<lparr>pending_updates := List.insert (line_icao raw) (pending_updates rd)\<rparr>)"
proof (cases "update_fields (fields raw ! 1) (fields raw)
           (case adsb_aircraft g (line_icao raw) of
              Some a \<Rightarrow> a | None \<Rightarrow> new_aircraft (line_icao raw))")
  case (Inl x)
  with assms show ?thesis by (cases x) (simp add: handle_line_accepted)
next
  case (Inr a')
  with assms show ?thesis
    by (intro exI [of _ a']) (simp add: handle_line_accepted)
qed

text \<open>
  The change set stays a set: no identifier is in it twice.
\<close>

lemma handle_line_distinct:
  assumes "distinct (pending_updates rd)"
  shows "distinct (pending_updates (snd (state_of (handle_line now raw (g, rd)))))"
proof (cases "accepted raw")
  case False
  with assms show ?thesis by (simp add: handle_line_skip)
next
  case True
  with assms show ?thesis
    by (auto simp: handle_line_accepted publish_def split: sum.splits)
qed

text \<open>
  The tick after one line: if the clock reads at least one second more than the last
  publish, one event for each identifier that is in the change set and in the registry;
  if it reads less, nothing is put on the queue.
\<close>

lemma tick_after_line:
  assumes "handle_line now raw (g, rd) = Inr (g', rd')"
    and "accepted raw"
    and "distinct (pending_updates rd)"
  shows "(1 \<le> now - last_update rd \<longrightarrow>
            (\<exists>ks. distinct ks \<and>
               set ks = {k. (k = line_icao raw \<or> k \<in> set (pending_updates rd)) \<and>
                            adsb_aircraft g' k \<noteq> None} \<and>
               adsb_queue g' = adsb_queue g @ map (\<lambda>k. Aircraft (the (adsb_aircraft g' k))) ks) \<and>
            pending_updates rd' = [] \<and> last_update rd' = now) \<and>
         (now - last_update rd < 1 \<longrightarrow>
            adsb_queue g' = adsb_queue g \<and>
            distinct (pending_updates rd') \<and>
            set (pending_updates rd') = insert (line_icao raw) (set (pending_updates rd)) \<and>
            last_update rd' = last_update rd)"
proof -
  from handle_line_Inr [OF assms(1,2)] obtain a' where
    st: "(g', rd') =
           publish now
             (g\<lparr>adsb_aircraft := (adsb_aircraft g)(line_icao raw \<mapsto> a')\<rparr>,
              rd\<lparr>pending_updates := List.insert (line_icao raw) (pending_updates rd)\<rparr>)"
    by blast
  let ?g1 = "g\<lparr>adsb_aircraft := (adsb_aircraft g)(line_icao raw \<mapsto> a')\<rparr>"
  let ?p1 = "List.insert (line_icao raw) (pending_updates rd)"
  have d: "distinct ?p1" using assms(3) by simp
  show ?thesis
  proof (intro conjI impI)
    assume fire: "1 \<le> now - last_update rd"
    let ?ks = "filter (\<lambda>k. adsb_aircraft ?g1 k \<noteq> None) ?p1"
    from st fire have g': "g' = ?g1\<lparr>adsb_queue := adsb_queue ?g1 @
          map (\<lambda>k. Aircraft (the (adsb_aircraft ?g1 k))) ?ks\<rparr>"
      and rd': "pending_updates rd' = []" "last_update rd' = now"
      by (simp_all add: publish_fires)
    from g' have reg: "adsb_aircraft g' = adsb_aircraft ?g1" by simp
    have "distinct ?ks" using d by simp
    moreover have "set ?ks = {k. (k = line_icao raw \<or> k \<in> set (pending_updates rd)) \<and>
        adsb_aircraft g' k \<noteq> None}"
      unfolding reg by auto
    moreover have "adsb_queue g' = adsb_queue g @ map (\<lambda>k. Aircraft (the (adsb_aircraft g' k))) ?ks"
      unfolding reg using g' by simp
    ultimately show "\<exists>ks. distinct ks \<and>
        set ks = {k. (k = line_icao raw \<or> k \<in> set (pending_updates rd)) \<and>
                     adsb_aircraft g' k \<noteq> None} \<and>
        adsb_queue g' = adsb_queue g @ map (\<lambda>k. Aircraft (the (adsb_aircraft g' k))) ks"
      by blast
    from rd' show "pending_updates rd' = []" "last_update rd' = now" by simp_all
  next
    assume wait: "now - last_update rd < 1"
    with st have "g' = ?g1" and "rd' = rd\<lparr>pending_updates := ?p1, ticks := Suc (ticks rd)\<rparr>"
      by (simp_all add: publish_waits)
    with d show "adsb_queue g' = adsb_queue g" "distinct (pending_updates rd')"
      "set (pending_updates rd') = insert (line_icao raw) (set (pending_updates rd))"
      "last_update rd' = last_update rd"
      by simp_all
  qed
qed

lemma distinct_single: "distinct ks \<Longrightarrow> set ks = {x} \<Longrightarrow> ks = [x]"
proof (cases ks)
  case Nil
  assume "set ks = {x}"
  with Nil show ?thesis by simp
next
  case (Cons y ys)
  assume d: "distinct ks" and s: "set ks = {x}"
  from s Cons have y: "y = x" and sub: "set ys \<subseteq> {x}" by auto
  from d Cons y have "x \<notin> set ys" by simp
  with sub have "ys = []" by (cases ys) auto
  with Cons y show ?thesis by simp
qed

lemma strip_UAL123: "strip ''UAL123  '' = ''UAL123''"
  by code_simp

lemma accepted_callsign_line:
  "accepted ''MSG,1,1,1,ABC123,1,2024,1,1,,UAL123  ,,,,,,,,,,,0''"
  "line_icao ''MSG,1,1,1,ABC123,1,2024,1,1,,UAL123  ,,,,,,,,,,,0'' = ''ABC123''"
  by (simp_all add: accepted_def line_icao_def fields_callsign_line upper_ABC123)

section \<open>Last write wins\<close>

text \<open>
  What a line does to a record does not depend on the record: it lays its partial update
  over it, the values of the line replacing the values held.
\<close>

lemma overlay_none [simp]: "overlay (new_aircraft i) a = a"
  by (cases a) (simp add: overlay_def new_aircraft_def)

lemma overlay_assoc: "overlay x (overlay y a) = overlay (overlay x y) a"
  by (simp add: overlay_def split: option.splits)

lemma overlay_over_new: "overlay (overlay d (new_aircraft i)) a = overlay d a"
  by (simp add: overlay_def new_aircraft_def split: option.splits)

lemma lays_over_Inr:
  assumes "\<And>a. h a = overlay d a"
  shows "lays_over (\<lambda>a. Inr (h a))"
  unfolding lays_over_def using assms by blast

lemma lays_over_id: "lays_over (\<lambda>a. Inr a)"
  by (rule lays_over_Inr [of _ "new_aircraft []"]) simp

lemma lays_over_if: "lays_over F \<Longrightarrow> lays_over G \<Longrightarrow> lays_over (\<lambda>a. if c then F a else G a)"
  by (cases c) (simp_all add: lays_over_def)

lemma lays_over_bind:
  assumes "lays_over F" and "lays_over G"
  shows "lays_over (\<lambda>a. case F a of Inl x \<Rightarrow> Inl x | Inr a1 \<Rightarrow> G a1)"
proof -
  from assms(1) obtain d where
    F: "(\<forall>a. F a = Inr (overlay d a)) \<or> (\<exists>e. \<forall>a. F a = Inl (e, overlay d a))"
    unfolding lays_over_def by blast
  from assms(2) obtain d' where
    G: "(\<forall>a. G a = Inr (overlay d' a)) \<or> (\<exists>e. \<forall>a. G a = Inl (e, overlay d' a))"
    unfolding lays_over_def by blast
  from F show ?thesis
  proof
    assume "\<exists>e. \<forall>a. F a = Inl (e, overlay d a)"
    then show ?thesis unfolding lays_over_def by auto
  next
    assume f: "\<forall>a. F a = Inr (overlay d a)"
    from G show ?thesis
    proof
      assume "\<forall>a. G a = Inr (overlay d' a)"
      with f have "\<forall>a. (case F a of Inl x \<Rightarrow> Inl x | Inr a1 \<Rightarrow> G a1) =
          Inr (overlay (overlay d' d) a)"
        by (simp add: overlay_assoc)
      then show ?thesis unfolding lays_over_def by blast
    next
      assume "\<exists>e. \<forall>a. G a = Inl (e, overlay d' a)"
      then obtain e where "\<forall>a. G a = Inl (e, overlay d' a)" by blast
      with f have "\<forall>a. (case F a of Inl x \<Rightarrow> Inl x | Inr a1 \<Rightarrow> G a1) =
          Inl (e, overlay (overlay d' d) a)"
        by (simp add: overlay_assoc)
      then show ?thesis unfolding lays_over_def by blast
    qed
  qed
qed

lemma lays_over_after:
  assumes "lays_over (\<lambda>a. Inr (h a))" and "lays_over G"
  shows "lays_over (\<lambda>a. G (h a))"
  using lays_over_bind [OF assms] by simp

lemma set_alt_overlay: "a\<lparr>alt := Some n\<rparr> = overlay ((new_aircraft [])\<lparr>alt := Some n\<rparr>) a"
  by (cases a) (simp add: overlay_def new_aircraft_def)

lemma set_speed_overlay: "a\<lparr>speed := Some n\<rparr> = overlay ((new_aircraft [])\<lparr>speed := Some n\<rparr>) a"
  by (cases a) (simp add: overlay_def new_aircraft_def)

lemma set_heading_overlay:
  "a\<lparr>heading := Some n\<rparr> = overlay ((new_aircraft [])\<lparr>heading := Some n\<rparr>) a"
  by (cases a) (simp add: overlay_def new_aircraft_def)

lemma set_lat_overlay: "a\<lparr>lat := Some x\<rparr> = overlay ((new_aircraft [])\<lparr>lat := Some x\<rparr>) a"
  by (cases a) (simp add: overlay_def new_aircraft_def)

lemma set_lat_lon_overlay:
  "a\<lparr>lat := Some x, lon := Some y\<rparr> = overlay ((new_aircraft [])\<lparr>lat := Some x, lon := Some y\<rparr>) a"
  by (cases a) (simp add: overlay_def new_aircraft_def)

lemma set_callsign_overlay:
  "a\<lparr>callsign := Some c\<rparr> = overlay ((new_aircraft [])\<lparr>callsign := Some c\<rparr>) a"
  by (cases a) (simp add: overlay_def new_aircraft_def)

lemma set_squawk_overlay:
  "a\<lparr>squawk := Some c\<rparr> = overlay ((new_aircraft [])\<lparr>squawk := Some c\<rparr>) a"
  by (cases a) (simp add: overlay_def new_aircraft_def)

lemma lays_over_raise: "lays_over (\<lambda>a. Inl (e, a))"
  unfolding lays_over_def
  by (intro exI [of _ "new_aircraft []"] disjI2 exI [of _ e]) simp

lemma lays_over_except: "lays_over (except_ValueError e)"
  unfolding except_ValueError_def
  by (cases "e = ValueError") (simp_all add: lays_over_id lays_over_raise)

lemma lays_over_set_alt: "lays_over (set_int (\<lambda>n a. a\<lparr>alt := Some n\<rparr>) s)"
  unfolding set_int_def
  by (cases "int_float s")
    (auto intro!: lays_over_if lays_over_id lays_over_except lays_over_Inr set_alt_overlay)

lemma lays_over_set_speed: "lays_over (set_int (\<lambda>n a. a\<lparr>speed := Some n\<rparr>) s)"
  unfolding set_int_def
  by (cases "int_float s")
    (auto intro!: lays_over_if lays_over_id lays_over_except lays_over_Inr set_speed_overlay)

lemma lays_over_set_heading: "lays_over (set_int (\<lambda>n a. a\<lparr>heading := Some n\<rparr>) s)"
  unfolding set_int_def
  by (cases "int_float s")
    (auto intro!: lays_over_if lays_over_id lays_over_except lays_over_Inr set_heading_overlay)

lemma lays_over_set_position: "lays_over (set_position s14 s15)"
proof -
  have ex: "lays_over (\<lambda>a. except_ValueError e (a\<lparr>lat := Some x\<rparr>))" for e x
    by (rule lays_over_after [OF lays_over_Inr lays_over_except]) (rule set_lat_overlay)
  show ?thesis
    unfolding set_position_def Let_def
    by (cases "float_py s14"; cases "float_py s15")
      (auto intro!: lays_over_if lays_over_id lays_over_except lays_over_Inr
         set_lat_lon_overlay ex)
qed

lemma lays_over_set_callsign: "lays_over (\<lambda>a. Inr (set_callsign s a))"
  unfolding set_callsign_def Let_def
  by (cases "strip s = []") (auto intro!: lays_over_id lays_over_Inr set_callsign_overlay)

lemma lays_over_update_fields: "lays_over (update_fields t ps)"
proof -
  have 5: "lays_over (\<lambda>a. set_int (\<lambda>n a. a\<lparr>alt := Some n\<rparr>) (ps ! 11)
      (if ps ! 10 \<noteq> [] then set_callsign (ps ! 10) a else a))"
    by (cases "ps ! 10 = []")
      (auto intro!: lays_over_set_alt lays_over_after [OF lays_over_set_callsign])
  have 6: "lays_over (\<lambda>a. Inr (if ps ! 17 \<noteq> [] then a\<lparr>squawk := Some (ps ! 17)\<rparr> else a))"
    by (cases "ps ! 17 = []") (auto intro!: lays_over_id lays_over_Inr set_squawk_overlay)
  have "lays_over (\<lambda>a. update_fields t ps a)"
    unfolding update_fields_def
    by (intro lays_over_if lays_over_bind lays_over_set_callsign lays_over_set_alt
        lays_over_set_speed lays_over_set_heading lays_over_set_position lays_over_id 5 6)
  then show ?thesis by simp
qed

lemma update_fields_overlay:
  "state_of (update_fields t ps a) = overlay (state_of (update_fields t ps (new_aircraft i))) a"
proof -
  from lays_over_update_fields [of t ps] obtain d where
    "(\<forall>a. update_fields t ps a = Inr (overlay d a)) \<or>
     (\<exists>e. \<forall>a. update_fields t ps a = Inl (e, overlay d a))"
    unfolding lays_over_def by blast
  then have "\<forall>a. state_of (update_fields t ps a) = overlay d a" by auto
  then show ?thesis by (simp add: overlay_over_new)
qed

lemma handle_line_Inr_update:
  assumes "handle_line now raw (g, rd) = Inr (g', rd')" and "accepted raw"
  shows "\<exists>a'. update_fields (fields raw ! 1) (fields raw)
                (case adsb_aircraft g (line_icao raw) of
                   Some a \<Rightarrow> a | None \<Rightarrow> new_aircraft (line_icao raw)) = Inr a' \<and>
              (g', rd') =
                publish now
                  (g\<lparr>adsb_aircraft := (adsb_aircraft g)(line_icao raw \<mapsto> a')\<rparr>,
                   rd\<lparr>pending_updates := List.insert (line_icao raw) (pending_updates rd)\<rparr>)"
proof (cases "update_fields (fields raw ! 1) (fields raw)
           (case adsb_aircraft g (line_icao raw) of
              Some a \<Rightarrow> a | None \<Rightarrow> new_aircraft (line_icao raw))")
  case (Inl x)
  with assms show ?thesis by (cases x) (simp add: handle_line_accepted)
next
  case (Inr a')
  with assms show ?thesis
    by (intro exI [of _ a']) (simp add: handle_line_accepted)
qed

lemma handle_line_registry:
  assumes "handle_line now raw (g, rd) = Inr (g', rd')"
  shows "adsb_aircraft g' = merge_line raw (adsb_aircraft g)"
proof (cases "accepted raw")
  case False
  with assms show ?thesis by (simp add: handle_line_skip merge_line_def)
next
  case True
  let ?a = "case adsb_aircraft g (line_icao raw) of
              Some a \<Rightarrow> a | None \<Rightarrow> new_aircraft (line_icao raw)"
  from handle_line_Inr_update [OF assms True] obtain a' where
    u: "update_fields (fields raw ! 1) (fields raw) ?a = Inr a'"
    and st: "(g', rd') = publish now
           (g\<lparr>adsb_aircraft := (adsb_aircraft g)(line_icao raw \<mapsto> a')\<rparr>,
            rd\<lparr>pending_updates := List.insert (line_icao raw) (pending_updates rd)\<rparr>)"
    by blast
  from update_fields_overlay [of "fields raw ! 1" "fields raw" ?a "line_icao raw"] u
  have a': "a' = overlay (line_update raw) ?a" by (simp add: line_update_def)
  have "adsb_aircraft g' = adsb_aircraft (fst (g', rd'))" by simp
  also have "\<dots> = (adsb_aircraft g)(line_icao raw \<mapsto> a')"
    unfolding st by simp
  finally show ?thesis using True a' by (simp add: merge_line_def)
qed

lemma handle_line_waits:
  assumes "handle_line now raw (g, rd) = Inr (g', rd')" and "accepted raw"
    and "now - last_update rd < 1"
  shows "adsb_queue g' = adsb_queue g"
    and "pending_updates rd' = List.insert (line_icao raw) (pending_updates rd)"
    and "last_update rd' = last_update rd"
    and "ticks rd' = Suc (ticks rd)"
proof -
  from handle_line_Inr [OF assms(1,2)] obtain a' where
    "(g', rd') =
       publish now
         (g\<lparr>adsb_aircraft := (adsb_aircraft g)(line_icao raw \<mapsto> a')\<rparr>,
          rd\<lparr>pending_updates := List.insert (line_icao raw) (pending_updates rd)\<rparr>)"
    by blast
  with assms(3) have "g' = g\<lparr>adsb_aircraft := (adsb_aircraft g)(line_icao raw \<mapsto> a')\<rparr>"
    and "rd' = rd\<lparr>pending_updates := List.insert (line_icao raw) (pending_updates rd),
                 ticks := Suc (ticks rd)\<rparr>"
    by (simp_all add: publish_waits)
  then show "adsb_queue g' = adsb_queue g"
    and "pending_updates rd' = List.insert (line_icao raw) (pending_updates rd)"
    and "last_update rd' = last_update rd"
    and "ticks rd' = Suc (ticks rd)"
    by simp_all
qed

lemma handle_line_ticks:
  assumes "handle_line now raw (g, rd) = Inr (g', rd')"
  shows "ticks rd' = (if accepted raw then Suc (ticks rd) else ticks rd)"
proof (cases "accepted raw")
  case False
  with assms show ?thesis by (simp add: handle_line_skip)
next
  case True
  from handle_line_Inr [OF assms True] obtain a' where
    "(g', rd') =
       publish now
         (g\<lparr>adsb_aircraft := (adsb_aircraft g)(line_icao raw \<mapsto> a')\<rparr>,
          rd\<lparr>pending_updates := List.insert (line_icao raw) (pending_updates rd)\<rparr>)"
    by blast
  then have "ticks rd' = Suc (ticks rd)"
    by (auto simp: publish_def split: if_splits)
  with True show ?thesis by simp
qed

lemma handle_lines_Cons:
  assumes "handle_lines clock (x # xs) (g, rd) = Inr (g1, rd1)"
  shows "\<exists>gm rdm. handle_line (clock (ticks rd)) x (g, rd) = Inr (gm, rdm) \<and>
           handle_lines clock xs (gm, rdm) = Inr (g1, rd1)"
proof (cases "handle_line (clock (ticks rd)) x (g, rd)")
  case (Inl e)
  with assms show ?thesis by simp
next
  case (Inr st)
  obtain gm rdm where "st = (gm, rdm)" by (cases st)
  with Inr assms show ?thesis by simp
qed

lemma handle_lines_ticks:
  "handle_lines clock ls (g, rd) = Inr (g1, rd1) \<Longrightarrow> ticks rd \<le> ticks rd1"
proof (induction ls arbitrary: g rd)
  case Nil
  then show ?case by simp
next
  case (Cons x xs)
  from handle_lines_Cons [OF Cons.prems] obtain gm rdm where
    x: "handle_line (clock (ticks rd)) x (g, rd) = Inr (gm, rdm)"
    and xs: "handle_lines clock xs (gm, rdm) = Inr (g1, rd1)"
    by blast
  from handle_line_ticks [OF x] have "ticks rd \<le> ticks rdm" by simp
  with Cons.IH [OF xs] show ?case by simp
qed

lemma handle_lines_window:
  assumes "handle_lines clock ls (g, rd) = Inr (g1, rd1)"
    and "\<forall>n. ticks rd \<le> n \<and> n < ticks rd1 \<longrightarrow> clock n - last_update rd < 1"
    and "distinct (pending_updates rd)"
  shows "adsb_queue g1 = adsb_queue g \<and>
         adsb_aircraft g1 = foldl (\<lambda>reg x. merge_line x reg) (adsb_aircraft g) ls \<and>
         distinct (pending_updates rd1) \<and>
         set (pending_updates rd1) =
           set (pending_updates rd) \<union> {k. \<exists>x. x \<in> set ls \<and> accepted x \<and> line_icao x = k} \<and>
         last_update rd1 = last_update rd"
  using assms
proof (induction ls arbitrary: g rd)
  case Nil
  then show ?case by simp
next
  case (Cons x xs)
  from handle_lines_Cons [OF Cons.prems(1)] obtain gm rdm where
    x: "handle_line (clock (ticks rd)) x (g, rd) = Inr (gm, rdm)"
    and xs: "handle_lines clock xs (gm, rdm) = Inr (g1, rd1)"
    by blast
  have reg: "adsb_aircraft gm = merge_line x (adsb_aircraft g)"
    using x by (rule handle_line_registry)
  show ?case
  proof (cases "accepted x")
    case False
    with x have same: "gm = g" "rdm = rd" by (simp_all add: handle_line_skip)
    from Cons.IH [OF xs [unfolded same] Cons.prems(2,3)] False reg same
    show ?thesis by auto
  next
    case True
    from handle_line_ticks [OF x] True have t: "ticks rdm = Suc (ticks rd)" by simp
    from handle_lines_ticks [OF xs] t have "ticks rd < ticks rd1" by simp
    with Cons.prems(2) have w: "clock (ticks rd) - last_update rd < 1" by simp
    note h = handle_line_waits [OF x True w]
    have time: "\<forall>n. ticks rdm \<le> n \<and> n < ticks rd1 \<longrightarrow> clock n - last_update rdm < 1"
      using Cons.prems(2) t h(3) by simp
    have d: "distinct (pending_updates rdm)"
      using Cons.prems(3) h(2) by simp
    from Cons.IH [OF xs time d] have
      "adsb_queue g1 = adsb_queue gm"
      "adsb_aircraft g1 = foldl (\<lambda>reg x. merge_line x reg) (adsb_aircraft gm) xs"
      "distinct (pending_updates rd1)"
      "set (pending_updates rd1) =
         set (pending_updates rdm) \<union> {k. \<exists>x. x \<in> set xs \<and> accepted x \<and> line_icao x = k}"
      "last_update rd1 = last_update rdm"
      by simp_all
    with h reg True show ?thesis by auto
  qed
qed

lemma handle_lines_snoc:
  "handle_lines clock (ls @ [l]) st =
     (case handle_lines clock ls st of
        Inl x \<Rightarrow> Inl x
      | Inr st' \<Rightarrow> handle_line (clock (ticks (snd st'))) l st')"
  by (induction ls arbitrary: st) (auto split: sum.splits)

text \<open>
  Claim C5. Let lines be handled on one connection without an exception while every clock
  reading is less than one second after the last publish, from a change set without
  duplicates; nothing is put on the queue meanwhile. Let then a line that passes the guards
  be handled, without an exception, at a reading of at least one second after the last
  publish. The registry then holds, for every aircraft, the partial updates of all these
  lines laid over its earlier record in the order of the lines, so that for each field the
  last line that sets it gives its value; the queue has grown by exactly one aircraft
  event for each identifier that was in the change set or is the identifier of one of
  these lines, and is in the registry, and each event carries the record that the registry
  holds; the change set is empty and the time of the last publish is the reading. (In the
  loop over the lines of a buffer the last line is handled at the reading
  \<open>clock (ticks rd1)\<close>: lemma \<open>handle_lines_snoc\<close>.)
\<close>

theorem publish_tick:
  assumes "handle_lines clock ls (g, rd) = Inr (g1, rd1)"
    and "\<forall>n. ticks rd \<le> n \<and> n < ticks rd1 \<longrightarrow> clock n - last_update rd < 1"
    and "handle_line now l (g1, rd1) = Inr (g2, rd2)"
    and "accepted l"
    and "1 \<le> now - last_update rd"
    and "distinct (pending_updates rd)"
  shows "adsb_queue g1 = adsb_queue g \<and>
         adsb_aircraft g2 = foldl (\<lambda>reg x. merge_line x reg) (adsb_aircraft g) (ls @ [l]) \<and>
         (\<exists>ks. distinct ks \<and>
            set ks = {k. (k \<in> set (pending_updates rd) \<or>
                          (\<exists>x. x \<in> set (ls @ [l]) \<and> accepted x \<and> line_icao x = k)) \<and>
                         adsb_aircraft g2 k \<noteq> None} \<and>
            adsb_queue g2 = adsb_queue g @ map (\<lambda>k. Aircraft (the (adsb_aircraft g2 k))) ks) \<and>
         pending_updates rd2 = [] \<and> last_update rd2 = now"
proof -
  from handle_lines_window [OF assms(1,2,6)] have
    q1: "adsb_queue g1 = adsb_queue g"
    and r1: "adsb_aircraft g1 = foldl (\<lambda>reg x. merge_line x reg) (adsb_aircraft g) ls"
    and d1: "distinct (pending_updates rd1)"
    and p1: "set (pending_updates rd1) =
      set (pending_updates rd) \<union> {k. \<exists>x. x \<in> set ls \<and> accepted x \<and> line_icao x = k}"
    and t1: "last_update rd1 = last_update rd"
    by simp_all
  from assms(5) t1 have fire: "1 \<le> now - last_update rd1" by simp
  note tick = tick_after_line [OF assms(3,4) d1, THEN conjunct1, THEN mp, OF fire]
  from tick obtain ks where ks: "distinct ks"
    "set ks = {k. (k = line_icao l \<or> k \<in> set (pending_updates rd1)) \<and>
                  adsb_aircraft g2 k \<noteq> None}"
    "adsb_queue g2 = adsb_queue g1 @ map (\<lambda>k. Aircraft (the (adsb_aircraft g2 k))) ks"
    by blast
  from tick have rd2: "pending_updates rd2 = []" "last_update rd2 = now" by blast+
  have r2: "adsb_aircraft g2 = foldl (\<lambda>reg x. merge_line x reg) (adsb_aircraft g) (ls @ [l])"
    using handle_line_registry [OF assms(3)] r1 by simp
  have "set ks = {k. (k \<in> set (pending_updates rd) \<or>
                      (\<exists>x. x \<in> set (ls @ [l]) \<and> accepted x \<and> line_icao x = k)) \<and>
                     adsb_aircraft g2 k \<noteq> None}"
    unfolding ks(2) p1 using assms(4) by auto
  with ks(1) ks(3) q1 have "\<exists>ks. distinct ks \<and>
      set ks = {k. (k \<in> set (pending_updates rd) \<or>
                    (\<exists>x. x \<in> set (ls @ [l]) \<and> accepted x \<and> line_icao x = k)) \<and>
                   adsb_aircraft g2 k \<noteq> None} \<and>
      adsb_queue g2 = adsb_queue g @ map (\<lambda>k. Aircraft (the (adsb_aircraft g2 k))) ks"
    by auto
  with q1 r2 rd2 show ?thesis by blast
qed

lemma fields_altitude_6000:
  "fields ''MSG,5,1,1,ABC123,1,2024,1,1,,,6000'' =
     [''MSG'', ''5'', ''1'', ''1'', ''ABC123'', ''1'', ''2024'', ''1'', ''1'', [], [], ''6000'']"
  by code_simp

lemma accepted_altitude_6000:
  "accepted ''MSG,5,1,1,ABC123,1,2024,1,1,,,6000''"
  "line_icao ''MSG,5,1,1,ABC123,1,2024,1,1,,,6000'' = ''ABC123''"
  by (simp_all add: accepted_def line_icao_def fields_altitude_6000 upper_ABC123)

lemma int_float_6000: "int_float ''6000'' = Inr 6000"
  by code_simp

lemma line_update_position_line:
  "line_update ''MSG,3,1,1,ABC123,1,2024,1,1,,,5000,,,40.1,-73.9,,,,,,0'' =
     \<lparr>icao = ''ABC123'', callsign = None, alt = Some 5000,
      lat = Some (Finite False (5643573283048653 / 140737488355328)),
      lon = Some (Finite True (2600125097364685 / 35184372088832)),
      speed = None, heading = None, squawk = None\<rparr>"
  by (simp add: line_update_def accepted_position_line fields_position_line update_fields_def
      set_int_def set_position_def int_float_5000 float_py_40_1 float_py_minus_73_9
      new_aircraft_def)

lemma line_update_altitude_6000:
  "line_update ''MSG,5,1,1,ABC123,1,2024,1,1,,,6000'' =
     \<lparr>icao = ''ABC123'', callsign = None, alt = Some 6000, lat = None, lon = None,
      speed = None, heading = None, squawk = None\<rparr>"
  by (simp add: line_update_def accepted_altitude_6000 fields_altitude_6000 update_fields_def
      set_int_def int_float_6000 new_aircraft_def)

lemma line_update_callsign_line:
  "line_update ''MSG,1,1,1,ABC123,1,2024,1,1,,UAL123  ,,,,,,,,,,,0'' =
     \<lparr>icao = ''ABC123'', callsign = Some ''UAL123'', alt = None, lat = None, lon = None,
      speed = None, heading = None, squawk = None\<rparr>"
  by (simp add: line_update_def accepted_callsign_line fields_callsign_line update_fields_def
      set_callsign_def strip_UAL123 new_aircraft_def)

text \<open>
  Three updates of one aircraft within one interval, on a connection made at the reading
  0: a position with the altitude 5000 and then the altitude 6000, both at the reading
  1/2, and a callsign at the reading 3/2, when the tick fires. One event is put on the
  queue; it carries the second altitude, the position and the callsign.
\<close>

theorem publish_tick_witness:
  "\<exists>g1 rd1 g2 rd2.
     handle_lines (\<lambda>n. 1 / 2)
       [''MSG,3,1,1,ABC123,1,2024,1,1,,,5000,,,40.1,-73.9,,,,,,0'',
        ''MSG,5,1,1,ABC123,1,2024,1,1,,,6000'']
       (tracking, new_reader (\<lambda>n. 0)) = Inr (g1, rd1) \<and>
     handle_line (3 / 2) ''MSG,1,1,1,ABC123,1,2024,1,1,,UAL123  ,,,,,,,,,,,0'' (g1, rd1) =
       Inr (g2, rd2) \<and>
     adsb_queue g1 = [] \<and>
     adsb_queue g2 =
       [Aircraft \<lparr>icao = ''ABC123'', callsign = Some ''UAL123'', alt = Some 6000,
          lat = Some (Finite False (5643573283048653 / 140737488355328)),
          lon = Some (Finite True (2600125097364685 / 35184372088832)),
          speed = None, heading = None, squawk = None\<rparr>] \<and>
     pending_updates rd2 = [] \<and> last_update rd2 = 3 / 2"
proof -
  let ?pos = "''MSG,3,1,1,ABC123,1,2024,1,1,,,5000,,,40.1,-73.9,,,,,,0''"
  let ?alt = "''MSG,5,1,1,ABC123,1,2024,1,1,,,6000''"
  let ?call = "''MSG,1,1,1,ABC123,1,2024,1,1,,UAL123  ,,,,,,,,,,,0''"
  let ?a1 = "\<lparr>icao = ''ABC123'', callsign = None, alt = Some 6000,
           lat = Some (Finite False (5643573283048653 / 140737488355328)),
           lon = Some (Finite True (2600125097364685 / 35184372088832)),
           speed = None, heading = None, squawk = None\<rparr>"
  let ?g1 = "tracking\<lparr>adsb_aircraft := [''ABC123'' \<mapsto> ?a1]\<rparr>"
  let ?rd1 = "\<lparr>buffer = [], last_update = 0, pending_updates = [''ABC123''], ticks = 3\<rparr>"
  let ?st = "publish (3 / 2)
      (?g1\<lparr>adsb_aircraft := (adsb_aircraft ?g1)(''ABC123'' \<mapsto> ?a1\<lparr>callsign := Some ''UAL123''\<rparr>)\<rparr>,
       ?rd1\<lparr>pending_updates := List.insert ''ABC123'' (pending_updates ?rd1)\<rparr>)"
  define g2 where "g2 = fst ?st"
  define rd2 where "rd2 = snd ?st"
  have window: "handle_lines (\<lambda>n. 1 / 2) [?pos, ?alt] (tracking, new_reader (\<lambda>n. 0)) =
      Inr (?g1, ?rd1)"
    by (simp add: handle_line_accepted accepted_position_line fields_position_line
        accepted_altitude_6000 fields_altitude_6000 int_float_6000
        update_fields_def set_int_def set_position_def int_float_5000 float_py_40_1
        float_py_minus_73_9 new_aircraft_def tracking_def new_reader_def publish_def)
  have "handle_line (3 / 2) ?call (?g1, ?rd1) = Inr ?st"
    by (simp add: handle_line_accepted accepted_callsign_line fields_callsign_line
        update_fields_def set_callsign_def strip_UAL123)
  then have last: "handle_line (3 / 2) ?call (?g1, ?rd1) = Inr (g2, rd2)"
    by (simp add: g2_def rd2_def)
  have time: "\<forall>n. ticks (new_reader (\<lambda>n. 0)) \<le> n \<and> n < ticks ?rd1 \<longrightarrow>
      (\<lambda>n. 1 / 2) n - last_update (new_reader (\<lambda>n. 0)) < 1"
    by (simp add: new_reader_def)
  have fire: "1 \<le> 3 / 2 - last_update (new_reader (\<lambda>n. 0))"
    by (simp add: new_reader_def)
  have dist: "distinct (pending_updates (new_reader (\<lambda>n. 0)))"
    by (simp add: new_reader_def)
  note tick = publish_tick [OF window time last accepted_callsign_line(1) fire dist]
  from tick have q1: "adsb_queue ?g1 = adsb_queue tracking" by blast
  from tick have "adsb_aircraft g2 =
      foldl (\<lambda>reg x. merge_line x reg) (adsb_aircraft tracking) ([?pos, ?alt] @ [?call])"
    by blast
  then have reg: "adsb_aircraft g2 = [''ABC123'' \<mapsto> ?a1\<lparr>callsign := Some ''UAL123''\<rparr>]"
    by (simp add: merge_line_def accepted_position_line accepted_altitude_6000
        accepted_callsign_line line_update_position_line line_update_altitude_6000
        line_update_callsign_line overlay_def new_aircraft_def tracking_def)
  from tick obtain ks where ks: "distinct ks"
    "set ks = {k. (k \<in> set (pending_updates (new_reader (\<lambda>n. 0))) \<or>
                   (\<exists>x. x \<in> set ([?pos, ?alt] @ [?call]) \<and> accepted x \<and> line_icao x = k)) \<and>
                  adsb_aircraft g2 k \<noteq> None}"
    "adsb_queue g2 = adsb_queue tracking @ map (\<lambda>k. Aircraft (the (adsb_aircraft g2 k))) ks"
    by blast
  from tick have rd2: "pending_updates rd2 = []" "last_update rd2 = 3 / 2" by blast+
  have only: "k = ''ABC123''" if "k \<in> set ks" for k
  proof -
    from that ks(2) have "adsb_aircraft g2 k \<noteq> None" by blast
    then show ?thesis by (simp add: reg split: if_splits)
  qed
  have "?call \<in> set ([?pos, ?alt] @ [?call])" by simp
  with accepted_callsign_line
  have "\<exists>x. x \<in> set ([?pos, ?alt] @ [?call]) \<and> accepted x \<and> line_icao x = ''ABC123''"
    by blast
  moreover have "adsb_aircraft g2 ''ABC123'' \<noteq> None" by (simp add: reg)
  ultimately have "''ABC123'' \<in> set ks" unfolding ks(2) by blast
  with only have "set ks = {''ABC123''}" by blast
  with ks(1) have "ks = [''ABC123'']" by (rule distinct_single)
  with ks(3) have q2: "adsb_queue g2 = [Aircraft (?a1\<lparr>callsign := Some ''UAL123''\<rparr>)]"
    by (simp add: reg tracking_def)
  from q1 have q1': "adsb_queue ?g1 = []" by (simp add: tracking_def)
  from window last q1' q2 rd2 show ?thesis
    by (intro exI [of _ ?g1] exI [of _ ?rd1] exI [of _ g2] exI [of _ rd2]) simp
qed

section \<open>The supervisor\<close>

lemma read_loop_peer_closed: "read_loop clock [(True, Data [])] (g, rd) = (Left, g)"
  by simp

text \<open>
  The thread returns only after it has read the flag as false at the head of the outer
  loop: a refused connection, a socket error, an exception from a line and a closed
  connection all lead to the next pass.
\<close>

lemma returns_only_when_flag_off:
  "Return \<in> set (fst (parse_sbs_stream script g)) \<Longrightarrow> \<exists>a. (False, a) \<in> set script"
proof (induction script arbitrary: g)
  case Nil
  then show ?case by simp
next
  case (Cons step script)
  obtain flag a where step: "step = (flag, a)" by (cases step)
  show ?case
  proof (cases flag)
    case False
    with step show ?thesis by auto
  next
    case True
    with Cons.prems step
    have "\<exists>g'. Return \<in> set (fst (parse_sbs_stream script g'))"
      by (auto split: attempt.splits prod.splits ending.splits) (metis fst_conv)+
    with Cons.IH show ?thesis by auto
  qed
qed

text \<open>
  Claim C6 where the peer closes the connection while the flag is set. The first
  connection is made and \<open>recv\<close> returns no data; the flag is still set, and the second
  attempt is refused. The thread closes the socket and connects again at once: there is no
  sleep between \<open>Close\<close> and the second \<open>Connect\<close>, while the refused attempt is followed by
  the sleep of 2 seconds.
\<close>

theorem peer_close_reconnects_at_once:
  "fst (parse_sbs_stream ((True, Connected clock [(True, Data [])]) # (True, Refused) # rest) g) =
     Connect # Close # Connect # Sleep 2 # fst (parse_sbs_stream rest g)"
  by (simp add: case_prod_unfold Let_def)

section \<open>Stop and start\<close>

text \<open>
  Claim C7. \<open>stop_adsb\<close> answers \<open>{status: stopped}\<close> from every state and leaves the flag
  cleared, no process handle and an empty registry, the rest of the state as it was; a
  second call gives the same answer and the same state; and a \<open>start_adsb\<close> that follows
  finds, and leaves, an empty registry.
\<close>

theorem stop_clears_the_session:
  "fst (stop_adsb g) = [(''status'', ''stopped'')] \<and>
   snd (stop_adsb g) =
     g\<lparr>adsb_using_service := False, adsb_process := None, adsb_aircraft := Map.empty\<rparr> \<and>
   \<not> adsb_using_service (snd (stop_adsb g)) \<and>
   adsb_aircraft (snd (stop_adsb g)) = Map.empty \<and>
   stop_adsb (snd (stop_adsb g)) = stop_adsb g \<and>
   adsb_aircraft (snd (start_adsb env (snd (stop_adsb g)))) = Map.empty"
  by (simp add: stop_adsb_def start_adsb_def split: option.splits)

text \<open>
  Claim C8. While the decoder runs or the flag is set, \<open>start_adsb\<close> answers
  \<open>already_running\<close> and changes nothing. Otherwise, when none of the three names of the
  decoder is found, or \<open>Popen\<close> raises, or the process has exited after the three seconds,
  it answers with the status \<open>error\<close> and a message, the flag stays cleared and no reader
  thread is started.
\<close>

theorem start_refusals:
  "(adsb_process g = Some True \<or> adsb_using_service g \<longrightarrow>
      (\<exists>msg. start_adsb env g = ([(''status'', ''already_running''), (''message'', msg)], g))) \<and>
   (adsb_process g \<noteq> Some True \<and> \<not> adsb_using_service g \<and>
    (which env ''dump1090'' = None \<and> which env ''dump1090-mutability'' = None \<and>
       which env ''dump1090-fa'' = None \<or>
     (\<exists>path. find_dump1090 env = Some path \<and>
        (popen env (command env path) \<noteq> None \<or> exited env))) \<longrightarrow>
      (\<exists>msg. fst (start_adsb env g) = [(''status'', ''error''), (''message'', msg)]) \<and>
      \<not> adsb_using_service (snd (start_adsb env g)) \<and>
      readers (snd (start_adsb env g)) = readers g \<and>
      adsb_aircraft (snd (start_adsb env g)) = adsb_aircraft g \<and>
      adsb_queue (snd (start_adsb env g)) = adsb_queue g)"
proof (intro conjI impI)
  assume "adsb_process g = Some True \<or> adsb_using_service g"
  then show "\<exists>msg. start_adsb env g =
      ([(''status'', ''already_running''), (''message'', msg)], g)"
    by (auto simp: start_adsb_def)
next
  assume a: "adsb_process g \<noteq> Some True \<and> \<not> adsb_using_service g \<and>
    (which env ''dump1090'' = None \<and> which env ''dump1090-mutability'' = None \<and>
       which env ''dump1090-fa'' = None \<or>
     (\<exists>path. find_dump1090 env = Some path \<and>
        (popen env (command env path) \<noteq> None \<or> exited env)))"
  then have idle: "adsb_process g \<noteq> Some True" "\<not> adsb_using_service g" by simp_all
  from a consider "find_dump1090 env = None"
    | path msg where "find_dump1090 env = Some path" "popen env (command env path) = Some msg"
    | path where "find_dump1090 env = Some path" "popen env (command env path) = None"
        "exited env"
    by (cases "popen env (command env (the (find_dump1090 env)))")
      (auto simp: find_dump1090_def)
  then have "(\<exists>msg. fst (start_adsb env g) = [(''status'', ''error''), (''message'', msg)]) \<and>
      \<not> adsb_using_service (snd (start_adsb env g)) \<and>
      readers (snd (start_adsb env g)) = readers g \<and>
      adsb_aircraft (snd (start_adsb env g)) = adsb_aircraft g \<and>
      adsb_queue (snd (start_adsb env g)) = adsb_queue g"
    using idle by cases (simp_all add: start_adsb_def)
  then show "\<exists>msg. fst (start_adsb env g) = [(''status'', ''error''), (''message'', msg)]"
    "\<not> adsb_using_service (snd (start_adsb env g))"
    "readers (snd (start_adsb env g)) = readers g"
    "adsb_aircraft (snd (start_adsb env g)) = adsb_aircraft g"
    "adsb_queue (snd (start_adsb env g)) = adsb_queue g"
    by simp_all
qed

theorem start_refusals_witness:
  "start_adsb \<lparr>request_gain = None, request_device = None, which = (\<lambda>name. None),
       popen = (\<lambda>cmd. None), exited = False, thread_error = None\<rparr> tracking =
     ([(''status'', ''already_running''), (''message'', ''ADS-B already running'')], tracking) \<and>
   fst (start_adsb \<lparr>request_gain = None, request_device = None, which = (\<lambda>name. None),
       popen = (\<lambda>cmd. None), exited = False, thread_error = None\<rparr> idle) =
     [(''status'', ''error''), (''message'', ''dump1090 not found.'')] \<and>
   \<not> adsb_using_service (snd (start_adsb \<lparr>request_gain = None, request_device = None,
       which = (\<lambda>name. None), popen = (\<lambda>cmd. None), exited = False,
       thread_error = None\<rparr> idle)) \<and>
   readers (snd (start_adsb \<lparr>request_gain = None, request_device = None,
       which = (\<lambda>name. None), popen = (\<lambda>cmd. None), exited = False,
       thread_error = None\<rparr> idle)) = 0"
proof -
  let ?env = "\<lparr>request_gain = None, request_device = None, which = (\<lambda>name. None),
       popen = (\<lambda>cmd. None), exited = False, thread_error = None\<rparr>"
  have on: "adsb_process tracking = Some True \<or> adsb_using_service tracking"
    by (simp add: tracking_def)
  have off: "adsb_process idle \<noteq> Some True \<and> \<not> adsb_using_service idle \<and>
    (which ?env ''dump1090'' = None \<and> which ?env ''dump1090-mutability'' = None \<and>
       which ?env ''dump1090-fa'' = None \<or>
     (\<exists>path. find_dump1090 ?env = Some path \<and>
        (popen ?env (command ?env path) \<noteq> None \<or> exited ?env)))"
    by (simp add: idle_def)
  from start_refusals [of tracking ?env, THEN conjunct1, THEN mp, OF on]
  have 1: "start_adsb ?env tracking =
      ([(''status'', ''already_running''), (''message'', ''ADS-B already running'')], tracking)"
    by (auto simp: start_adsb_def tracking_def)
  from start_refusals [of idle ?env, THEN conjunct2, THEN mp, OF off]
  have 2: "fst (start_adsb ?env idle) =
      [(''status'', ''error''), (''message'', ''dump1090 not found.'')]"
    and 3: "\<not> adsb_using_service (snd (start_adsb ?env idle))"
    and 4: "readers (snd (start_adsb ?env idle)) = 0"
    by (auto simp: start_adsb_def find_dump1090_def idle_def)
  from 1 2 3 4 show ?thesis by simp
qed

section \<open>One queue, several subscribers\<close>

lemma count_list_append: "count_list (xs @ ys) x = count_list xs x + count_list ys x"
  by (induction xs) simp_all

text \<open>
  Claim C9, as stated, fails: with two subscribers, an event that the reader puts on the
  queue is taken by the subscriber that asks first; the other one finds the queue empty
  and is sent a keepalive.
\<close>

theorem fan_out_counterexample:
  "(0, Aircraft (new_aircraft ''ABC123'')) \<in>
     set (snd (run [Put (Aircraft (new_aircraft ''ABC123'')), Get 0, Get 1] ([], []))) \<and>
   (1, Aircraft (new_aircraft ''ABC123'')) \<notin>
     set (snd (run [Put (Aircraft (new_aircraft ''ABC123'')), Get 0, Get 1] ([], [])))"
  by (simp add: generate_def)

lemma run_counts:
  "count_list (map snd (snd (run ops (q, sent)))) (Aircraft a) +
   count_list (fst (run ops (q, sent))) (Aircraft a) =
   count_list (map snd sent) (Aircraft a) + count_list q (Aircraft a) +
   count_list (puts ops) (Aircraft a)"
proof (induction ops arbitrary: q sent)
  case Nil
  show ?case by simp
next
  case (Cons o' ops)
  show ?case
  proof (cases o')
    case (Put e)
    with Cons.IH [of "q @ [e]" sent] show ?thesis
      by (simp add: count_list_append)
  next
    case (Get i)
    show ?thesis
    proof (cases q)
      case Nil
      with Get Cons.IH [of "[]" "sent @ [(i, Keepalive)]"] show ?thesis
        by (simp add: generate_def count_list_append)
    next
      case (Cons e q')
      with Get Cons.IH [of q' "sent @ [(i, e)]"] show ?thesis
        by (simp add: generate_def count_list_append)
    qed
  qed
qed

text \<open>
  The queue is first in, first out: what has been sent, keepalives aside, and then what
  is still queued, is what was queued and then what was put.
\<close>

lemma run_fifo:
  assumes "Keepalive \<notin> set q" and "Keepalive \<notin> set (puts ops)"
  shows "filter (\<lambda>e. e \<noteq> Keepalive) (map snd (snd (run ops (q, sent)))) @ fst (run ops (q, sent)) =
         filter (\<lambda>e. e \<noteq> Keepalive) (map snd sent) @ q @ puts ops"
  using assms
proof (induction ops arbitrary: q sent)
  case Nil
  show ?case by simp
next
  case (Cons o' ops)
  show ?case
  proof (cases o')
    case (Put e)
    with Cons.prems Cons.IH [of "q @ [e]" sent] show ?thesis by simp
  next
    case (Get i)
    show ?thesis
    proof (cases q)
      case Nil
      with Get Cons.prems Cons.IH [of "[]" "sent @ [(i, Keepalive)]"] show ?thesis
        by (simp add: generate_def)
    next
      case (Cons e q')
      with Get Cons.prems Cons.IH [of q' "sent @ [(i, e)]"] show ?thesis
        by (auto simp: generate_def)
    qed
  qed
qed

lemma run_one_subscriber:
  assumes "\<forall>j. Get j \<in> set ops \<longrightarrow> j = i" and "\<forall>x \<in> set sent. fst x = i"
  shows "\<forall>x \<in> set (snd (run ops (q, sent))). fst x = i"
  using assms
proof (induction ops arbitrary: q sent)
  case Nil
  then show ?case by simp
next
  case (Cons o' ops)
  from Cons.prems(1) have rest: "\<forall>j. Get j \<in> set ops \<longrightarrow> j = i" by simp
  show ?case
  proof (cases o')
    case (Put e)
    have "\<forall>x \<in> set (snd (run ops (q @ [e], sent))). fst x = i"
      using rest Cons.prems(2) by (rule Cons.IH)
    with Put show ?thesis by simp
  next
    case (Get j)
    with Cons.prems(1) have j: "j = i" by simp
    obtain e q' where g: "generate q = (e, q')" by (cases "generate q")
    from Cons.prems(2) have "\<forall>x \<in> set (sent @ [(i, e)]). fst x = i" by simp
    with rest have "\<forall>x \<in> set (snd (run ops (q', sent @ [(i, e)]))). fst x = i"
      by (rule Cons.IH)
    with Get j g show ?thesis by simp
  qed
qed

text \<open>
  Claim C9, amended. The channel is one shared first-in, first-out queue that every
  subscriber takes from. A pass of a subscriber that finds an event at the head of the
  queue takes it off the queue and sends it to that subscriber alone; a pass that finds the
  queue empty sends that subscriber a keepalive. Over every interleaving of puts by the
  reader and passes of any number of subscribers, each aircraft event has been sent (to
  all subscribers together) as many times as it was put, less the times it is still on the
  queue, so that an event put once reaches at most one subscriber. When only aircraft
  events are queued, the events sent, in order, followed by the events still queued are
  the events put, in order; and when one subscriber alone takes from the queue, all that
  is sent is sent to it: it receives every event.
\<close>

theorem each_event_reaches_one_subscriber:
  "run (Get i # ops) (e # q, sent) = run ops (q, sent @ [(i, e)]) \<and>
   run (Get i # ops) ([], sent) = run ops ([], sent @ [(i, Keepalive)]) \<and>
   count_list (map snd (snd (run ops (q, sent)))) (Aircraft a) +
     count_list (fst (run ops (q, sent))) (Aircraft a) =
     count_list (map snd sent) (Aircraft a) + count_list q (Aircraft a) +
     count_list (puts ops) (Aircraft a) \<and>
   (Keepalive \<notin> set q \<and> Keepalive \<notin> set (puts ops) \<longrightarrow>
      filter (\<lambda>e. e \<noteq> Keepalive) (map snd (snd (run ops (q, [])))) @ fst (run ops (q, [])) =
      q @ puts ops) \<and>
   ((\<forall>j. Get j \<in> set ops \<longrightarrow> j = i) \<longrightarrow>
      (\<forall>x \<in> set (snd (run ops (q, []))). fst x = i))"
proof (intro conjI impI)
  show "run (Get i # ops) (e # q, sent) = run ops (q, sent @ [(i, e)])"
    by (simp add: generate_def)
  show "run (Get i # ops) ([], sent) = run ops ([], sent @ [(i, Keepalive)])"
    by (simp add: generate_def)
  show "count_list (map snd (snd (run ops (q, sent)))) (Aircraft a) +
     count_list (fst (run ops (q, sent))) (Aircraft a) =
     count_list (map snd sent) (Aircraft a) + count_list q (Aircraft a) +
     count_list (puts ops) (Aircraft a)"
    by (rule run_counts)
next
  assume "Keepalive \<notin> set q \<and> Keepalive \<notin> set (puts ops)"
  then show "filter (\<lambda>e. e \<noteq> Keepalive) (map snd (snd (run ops (q, [])))) @
      fst (run ops (q, [])) = q @ puts ops"
    using run_fifo [of q ops "[]"] by simp
next
  assume "\<forall>j. Get j \<in> set ops \<longrightarrow> j = i"
  then show "\<forall>x \<in> set (snd (run ops (q, []))). fst x = i"
    by (rule run_one_subscriber) simp
qed

text \<open>
  One subscriber, two events: it is sent the first, then the second, then a keepalive.
\<close>

theorem each_event_reaches_one_subscriber_witness:
  "snd (run [Put (Aircraft (new_aircraft ''ABC123'')), Get 0,
             Put (Aircraft (new_aircraft ''DEF456'')), Get 0, Get 0] ([], [])) =
     [(0, Aircraft (new_aircraft ''ABC123'')), (0, Aircraft (new_aircraft ''DEF456'')),
      (0, Keepalive)] \<and>
   filter (\<lambda>e. e \<noteq> Keepalive)
     (map snd (snd (run [Put (Aircraft (new_aircraft ''ABC123'')), Get 0,
                         Put (Aircraft (new_aircraft ''DEF456'')), Get 0, Get 0] ([], [])))) @
   fst (run [Put (Aircraft (new_aircraft ''ABC123'')), Get 0,
             Put (Aircraft (new_aircraft ''DEF456'')), Get 0, Get 0] ([], [])) =
     [Aircraft (new_aircraft ''ABC123''), Aircraft (new_aircraft ''DEF456'')]"
proof -
  let ?ops = "[Put (Aircraft (new_aircraft ''ABC123'')), Get 0,
               Put (Aircraft (new_aircraft ''DEF456'')), Get 0, Get 0]"
  note t = each_event_reaches_one_subscriber [of 0 ?ops Keepalive "[]" "[]"]
  have pre: "Keepalive \<notin> set [] \<and> Keepalive \<notin> set (puts ?ops)" by simp
  have one: "\<forall>j. Get j \<in> set ?ops \<longrightarrow> j = 0" by simp
  note fifo = t [THEN conjunct2, THEN conjunct2, THEN conjunct2, THEN conjunct1, THEN mp,
      OF pre]
  note mine = t [THEN conjunct2, THEN conjunct2, THEN conjunct2, THEN conjunct2, THEN mp,
      OF one]
  have sent: "snd (run ?ops ([], [])) =
     [(0, Aircraft (new_aircraft ''ABC123'')), (0, Aircraft (new_aircraft ''DEF456'')),
      (0, Keepalive)]"
    using mine by (simp add: generate_def)
  from fifo have "filter (\<lambda>e. e \<noteq> Keepalive) (map snd (snd (run ?ops ([], [])))) @
      fst (run ?ops ([], [])) =
      [Aircraft (new_aircraft ''ABC123''), Aircraft (new_aircraft ''DEF456'')]"
    by simp
  with sent show ?thesis by blast
qed

end
